theory Spec2Isabelle
  imports Complex_Main "HOL-Library.Sublist"
begin

section \<open>Values shared by the pages\<close>

text \<open>
  A column that may be \<^verbatim>\<open>null\<close> (or absent from the row) is an \<open>option\<close>. A number that
  the code only copies, compares or negates is a rational, \<open>jsnum\<close>: these operations
  are exact on IEEE doubles. The numbers that the code adds are doubles, below.
\<close>

type_synonym jsnum = rat

subsection \<open>The doubles and their sum\<close>

text \<open>
  A finite double is a rational \<open>m * 2 ^ e\<close> with \<open>\<bar>m\<bar> < 2 ^ 53\<close> and \<open>e\<close> from \<open>-1074\<close>
  to \<open>971\<close>. The \<^verbatim>\<open>+\<close> of two numbers is their exact sum rounded to the nearest double,
  a tie going to the even significand. \<open>round_double\<close> rounds to 53 significant bits:
  it scales the magnitude into \<open>2 ^ 52 \<le> y < 2 ^ 53\<close> by halving or doubling, rounds \<open>y\<close>
  to an integer and scales back. (It has no least exponent; the sum of two doubles is a
  multiple of \<open>2 ^ -1074\<close>, and where such a sum lies below \<open>2 ^ -1021\<close> it has at most
  53 bits and the rounding leaves it as it is, as IEEE addition does.)
\<close>

definition round_half_even :: "rat \<Rightarrow> int" where
  "round_half_even x =
     (let f = \<lfloor>x\<rfloor>; d = x - of_int f in
      if d < 1 / 2 then f else if 1 / 2 < d then f + 1 else if even f then f else f + 1)"

function halvings :: "rat \<Rightarrow> nat" where
  "halvings x = (if 2 ^ 53 \<le> x then Suc (halvings (x / 2)) else 0)"
  by pat_completeness auto
termination
proof (relation "measure (\<lambda>x. nat \<lfloor>x\<rfloor>)")
  show "wf (measure (\<lambda>x::rat. nat \<lfloor>x\<rfloor>))" by simp
next
  fix x :: rat
  assume a: "2 ^ 53 \<le> x"
  then have "x / 2 + 1 \<le> x" by simp
  then have "\<lfloor>x / 2\<rfloor> + 1 \<le> \<lfloor>x\<rfloor>" by linarith
  moreover have "0 \<le> \<lfloor>x / 2\<rfloor>" using a by simp
  ultimately have "nat \<lfloor>x / 2\<rfloor> < nat \<lfloor>x\<rfloor>" by linarith
  then show "(x / 2, x) \<in> measure (\<lambda>x. nat \<lfloor>x\<rfloor>)" by simp
qed

function doublings :: "rat \<Rightarrow> nat" where
  "doublings x = (if 0 < x \<and> x < 2 ^ 52 then Suc (doublings (2 * x)) else 0)"
  by pat_completeness auto
termination
proof (relation "measure (\<lambda>x. nat \<lfloor>2 ^ 52 / x\<rfloor>)")
  show "wf (measure (\<lambda>x::rat. nat \<lfloor>2 ^ 52 / x\<rfloor>))" by simp
next
  fix x :: rat
  assume a: "0 < x \<and> x < 2 ^ 52"
  define y where "y = 2 ^ 52 / x"
  have y: "1 < y" using a by (simp add: y_def)
  have e: "2 ^ 52 / (2 * x) = y / 2" by (simp add: y_def)
  have "of_int (2 * \<lfloor>y / 2\<rfloor>) \<le> y"
    using of_int_floor_le [of "y / 2"] by simp
  then have "2 * \<lfloor>y / 2\<rfloor> \<le> \<lfloor>y\<rfloor>" by (simp only: le_floor_iff)
  moreover have "1 \<le> \<lfloor>y\<rfloor>" using y by (simp add: le_floor_iff)
  moreover have "0 \<le> \<lfloor>y / 2\<rfloor>" using y by simp
  ultimately have "nat \<lfloor>y / 2\<rfloor> < nat \<lfloor>y\<rfloor>" by linarith
  then have "nat \<lfloor>2 ^ 52 / (2 * x)\<rfloor> < nat \<lfloor>2 ^ 52 / x\<rfloor>"
    unfolding e y_def .
  then show "(2 * x, x) \<in> measure (\<lambda>x. nat \<lfloor>2 ^ 52 / x\<rfloor>)"
    by (simp only: in_measure)
qed

declare halvings.simps [simp del] doublings.simps [simp del]

definition round_pos :: "rat \<Rightarrow> rat" where
  "round_pos x =
     (if 2 ^ 53 \<le> x
      then (let h = halvings x in of_int (round_half_even (x / 2 ^ h)) * 2 ^ h)
      else (let d = doublings x in of_int (round_half_even (x * 2 ^ d)) / 2 ^ d))"

definition round_double :: "rat \<Rightarrow> rat" where
  "round_double x = (if x = 0 then 0 else if 0 < x then round_pos x else - round_pos (- x))"

text \<open>
  The finite doubles among the rationals: the rounding leaves them as they are, they are
  multiples of \<open>2 ^ -1074\<close>, and they lie below \<open>2 ^ 1024\<close>. The numbers that reach the
  handlers are parsed from JSON or from a form field, so they are finite doubles; the
  type \<open>double\<close> holds them, \<open>dval\<close> is the value of one and \<open>js_num x\<close> is the double with
  the value \<open>x\<close>.
\<close>

definition is_double :: "rat \<Rightarrow> bool" where
  "is_double x =
     (round_double x = x \<and> \<bar>x\<bar> < 2 ^ 1024 \<and> of_int \<lfloor>x * 2 ^ 1074\<rfloor> = x * 2 ^ 1074)"

typedef double = "{x::rat. is_double x}"
  morphisms dval js_num
proof
  show "0 \<in> {x::rat. is_double x}" by (simp add: is_double_def round_double_def)
qed

text \<open>
  \<^verbatim>\<open>a + b\<close>. A rounded sum of magnitude \<open>2 ^ 1024\<close> or more is \<^verbatim>\<open>Infinity\<close>, which the
  request body (\<^verbatim>\<open>JSON.stringify\<close>) carries as \<^verbatim>\<open>null\<close>: that is \<open>None\<close>.
\<close>

definition js_plus :: "double \<Rightarrow> double \<Rightarrow> double option" where
  "js_plus a b =
     (let r = round_double (dval a + dval b) in if \<bar>r\<bar> < 2 ^ 1024 then Some (js_num r) else None)"

text \<open>\<^verbatim>\<open>x || 0\<close> on \<^verbatim>\<open>number | null\<close>: the falsy values \<^verbatim>\<open>null\<close> and \<^verbatim>\<open>0\<close> give \<^verbatim>\<open>0\<close>.\<close>

definition or_zero :: "double option \<Rightarrow> double" where
  "or_zero v = (case v of None \<Rightarrow> js_num 0 | Some n \<Rightarrow> (if dval n = 0 then js_num 0 else n))"

text \<open>
  What the hosted backend answers to one request. \<open>Ok\<close>: the request is applied and
  \<^verbatim>\<open>error\<close> is null. \<open>Error m\<close>: the awaited result carries \<^verbatim>\<open>error\<close> with message \<open>m\<close>
  and nothing is applied. \<open>Rejects m\<close>: the awaited promise rejects, so the \<^verbatim>\<open>await\<close>
  throws an exception with message \<open>m\<close>.
\<close>

datatype response = Ok | Error string | Rejects string

section \<open>Rows of the backend tables\<close>

datatype status = Pending | Approved | Rejected

text \<open>The parameter type \<^verbatim>\<open>'approved' | 'rejected'\<close> of \<^verbatim>\<open>handleReviewSubmission\<close>.\<close>

datatype review_status = approved | rejected

fun status_of :: "review_status \<Rightarrow> status" where
  "status_of approved = Approved"
| "status_of rejected = Rejected"

record submission =
  sub_id :: string
  submission_content :: string
  sub_status :: status
  admin_feedback :: "string option"
  payment_amount :: double
  created_at :: string
  reviewed_at :: "string option"
  reviewed_by :: "string option"
  sub_user_id :: string

datatype tier = TierNone | TierRegular | TierPro | TierVip

text \<open>
  A calendar date and time of day, as the fields a JavaScript \<^verbatim>\<open>Date\<close> shows in local
  time: \<open>month\<close> counts from 0 (January) to 11, \<open>day\<close> from 1.
\<close>

record js_date =
  year :: int
  month :: nat
  day :: nat
  ms_of_day :: nat

record profile_row =
  prof_id :: string
  total_earnings :: "double option"
  pending_earnings :: "double option"
  approved_earnings :: "double option"
  tasks_completed :: "double option"
  membership_tier :: tier
  membership_expires_at :: "js_date option"
  daily_tasks_used :: jsnum
  membership_status :: "string option"

record transaction =
  tx_user_id :: string
  tx_type :: string
  amount :: jsnum
  tx_status :: string
  description :: string
  reference_id :: string

record database =
  job_submissions :: "submission list"
  profiles :: "profile_row list"
  transactions :: "transaction list"

text \<open>
  The row storage service, by its request/response contract: an update with
  \<^verbatim>\<open>.eq('id', i)\<close> rewrites every row whose id is \<open>i\<close>; \<^verbatim>\<open>.single()\<close> gives the row when
  exactly one row matches and \<^verbatim>\<open>data = null\<close> otherwise.
\<close>

definition update_where :: "('a \<Rightarrow> bool) \<Rightarrow> ('a \<Rightarrow> 'a) \<Rightarrow> 'a list \<Rightarrow> 'a list" where
  "update_where P f rows = map (\<lambda>r. if P r then f r else r) rows"

definition single :: "('a \<Rightarrow> bool) \<Rightarrow> 'a list \<Rightarrow> 'a option" where
  "single P rows = (case filter P rows of [r] \<Rightarrow> Some r | _ \<Rightarrow> None)"

section \<open>Admin.tsx: reviewing a submission\<close>

record admin_page =
  admin_user :: "string option"
  selectedSubmission :: "submission option"
  feedback :: string
  reviewDialogOpen :: bool
  isReviewing :: bool

text \<open>What the handler does that is visible outside the page state, in order.\<close>

datatype admin_event =
    UpdateSubmission string status "string option" string "string option"
  | SelectProfile string
  | UpdateProfile string "double option" "double option" "double option"
  | Toast string string
  | ToastDestructive string string
  | ConsoleWarn string
  | ConsoleError string
  | FetchData

record review_env =
  now_iso :: string
  submission_update :: response
  profile_select :: response
  earnings_update :: response
  fetch_data_throws :: bool

text \<open>\<^verbatim>\<open>openReviewDialog\<close> (line 363), and the label of the button that calls it (line 1399).\<close>

definition openReviewDialog :: "submission \<Rightarrow> admin_page \<Rightarrow> admin_page" where
  "openReviewDialog s pg =
     pg\<lparr>selectedSubmission := Some s,
        feedback := (case admin_feedback s of None \<Rightarrow> [] | Some f \<Rightarrow> f),
        reviewDialogOpen := True\<rparr>"

definition review_button_label :: "submission \<Rightarrow> string" where
  "review_button_label s = (if sub_status s = Pending then ''Review'' else ''Update Review'')"

text \<open>
  \<^verbatim>\<open>updateData\<close> (lines 293-298) applied to one row. \<^verbatim>\<open>feedback || null\<close> turns the
  empty string into null; \<^verbatim>\<open>reviewed_by: user?.id\<close> is undefined without a user, and an
  undefined key is not sent, so the column keeps its value.
\<close>

definition feedback_or_null :: "string \<Rightarrow> string option" where
  "feedback_or_null fb = (if fb = [] then None else Some fb)"

definition apply_updateData ::
  "review_status \<Rightarrow> string \<Rightarrow> string \<Rightarrow> string option \<Rightarrow> submission \<Rightarrow> submission" where
  "apply_updateData st fb now uid r =
     r\<lparr>sub_status := status_of st,
       admin_feedback := feedback_or_null fb,
       reviewed_at := Some now,
       reviewed_by := (case uid of None \<Rightarrow> reviewed_by r | Some u \<Rightarrow> Some u)\<rparr>"

text \<open>
  Lines 308-335, the branch \<^verbatim>\<open>status === 'approved'\<close>. \<open>Inl m\<close> is an exception thrown
  out of the branch; the database it carries is the one reached before the throw. The
  three sums are those of \<^verbatim>\<open>+\<close> on doubles.
\<close>

definition update_user_earnings ::
  "review_env \<Rightarrow> submission \<Rightarrow> database \<Rightarrow> (string + unit) \<times> database \<times> admin_event list" where
  "update_user_earnings env sel db =
     (let uid = sub_user_id sel; ev1 = [SelectProfile uid] in
      case profile_select env of
        Rejects m \<Rightarrow> (Inl m, db, ev1)
      | sel_resp \<Rightarrow>
         (case (if sel_resp = Ok then single (\<lambda>r. prof_id r = uid) (profiles db) else None) of
            None \<Rightarrow> (Inr (), db, ev1)
          | Some profile \<Rightarrow>
             (let currentApprovedEarnings = or_zero (approved_earnings profile);
                  currentTotalEarnings = or_zero (total_earnings profile);
                  currentTasksCompleted = or_zero (tasks_completed profile);
                  a' = js_plus currentApprovedEarnings (payment_amount sel);
                  t' = js_plus currentTotalEarnings (payment_amount sel);
                  c' = js_plus currentTasksCompleted (js_num 1);
                  ev2 = ev1 @ [UpdateProfile uid a' t' c']
              in case earnings_update env of
                   Rejects m \<Rightarrow> (Inl m, db, ev2)
                 | Error m \<Rightarrow> (Inr (), db, ev2 @ [ConsoleWarn ''Failed to update user earnings:''])
                 | Ok \<Rightarrow>
                    (Inr (),
                     db\<lparr>profiles :=
                          update_where (\<lambda>r. prof_id r = uid)
                            (\<lambda>r. r\<lparr>approved_earnings := a',
                                    total_earnings := t',
                                    tasks_completed := c'\<rparr>)
                            (profiles db)\<rparr>,
                     ev2))))"

text \<open>
  \<^verbatim>\<open>fetchData\<close> (line 143) only reads the tables and has its own try/catch, so it never
  throws into its caller; here it is the event \<open>FetchData\<close>, followed by its error
  toast when a read throws.
\<close>

definition fetchData :: "review_env \<Rightarrow> admin_event list" where
  "fetchData env =
     FetchData # (if fetch_data_throws env
                  then [ConsoleError ''Error fetching data:'', ToastDestructive ''Error'' ''Failed to load data'']
                  else [])"

fun status_text :: "review_status \<Rightarrow> string" where
  "status_text approved = ''approved''"
| "status_text rejected = ''rejected''"

text \<open>The body of the \<^verbatim>\<open>try\<close> block of \<^verbatim>\<open>handleReviewSubmission\<close> (lines 292-348).\<close>

definition review_try ::
  "review_env \<Rightarrow> review_status \<Rightarrow> admin_page \<Rightarrow> database \<Rightarrow> submission \<Rightarrow>
   (string + admin_page) \<times> database \<times> admin_event list" where
  "review_try env st pg db sel =
     (let fb = feedback_or_null (feedback pg);
          ev1 = [UpdateSubmission (sub_id sel) (status_of st) fb (now_iso env) (admin_user pg)]
      in case submission_update env of
           Rejects m \<Rightarrow> (Inl m, db, ev1)
         | Error m \<Rightarrow> (Inl m, db, ev1)
         | Ok \<Rightarrow>
            (let db1 = db\<lparr>job_submissions :=
                           update_where (\<lambda>r. sub_id r = sub_id sel)
                             (apply_updateData st (feedback pg) (now_iso env) (admin_user pg))
                             (job_submissions db)\<rparr>;
                 (res, db2, ev2) =
                   (if st = approved then update_user_earnings env sel db1 else (Inr (), db1, []))
             in case res of
                  Inl m \<Rightarrow> (Inl m, db2, ev1 @ ev2)
                | Inr _ \<Rightarrow>
                   (Inr (pg\<lparr>reviewDialogOpen := False, selectedSubmission := None, feedback := []\<rparr>),
                    db2,
                    ev1 @ ev2 @ [Toast ''Success'' (''Submission '' @ status_text st)] @ fetchData env)))"

text \<open>
  \<^verbatim>\<open>handleReviewSubmission\<close> (lines 286-360): the guard on \<^verbatim>\<open>selectedSubmission\<close>, the
  \<^verbatim>\<open>try\<close> block, the \<^verbatim>\<open>catch\<close> with its toast (\<^verbatim>\<open>error.message || 'Failed to review
  submission'\<close>) and the \<^verbatim>\<open>finally\<close>.
\<close>

definition handleReviewSubmission ::
  "review_env \<Rightarrow> review_status \<Rightarrow> admin_page \<times> database \<Rightarrow> admin_page \<times> database \<times> admin_event list" where
  "handleReviewSubmission env st s =
     (let (pg, db) = s in
      case selectedSubmission pg of
        None \<Rightarrow> (pg, db, [])
      | Some sel \<Rightarrow>
         (let pg1 = pg\<lparr>isReviewing := True\<rparr>;
              (res, db', evs) = review_try env st pg1 db sel
          in case res of
               Inr pg2 \<Rightarrow> (pg2\<lparr>isReviewing := False\<rparr>, db', evs)
             | Inl m \<Rightarrow>
                (pg1\<lparr>isReviewing := False\<rparr>, db',
                 evs @ [ConsoleError ''Review error:'',
                        ToastDestructive ''Error'' (if m = [] then ''Failed to review submission'' else m)])))"

text \<open>Whether an event writes to the \<^verbatim>\<open>profiles\<close> table.\<close>

fun writes_profile :: "admin_event \<Rightarrow> bool" where
  "writes_profile (UpdateProfile _ _ _ _) = True"
| "writes_profile _ = False"

text \<open>
  Two versions of one submission row that differ at most in the four columns of
  \<^verbatim>\<open>updateData\<close>.
\<close>

definition only_review_columns_differ :: "submission \<Rightarrow> submission \<Rightarrow> bool" where
  "only_review_columns_differ r r' =
     (r'\<lparr>sub_status := sub_status r, admin_feedback := admin_feedback r,
         reviewed_at := reviewed_at r, reviewed_by := reviewed_by r\<rparr> = r)"

subsection \<open>A concrete review\<close>

definition worker_profile :: profile_row where
  "worker_profile =
     \<lparr>prof_id = ''worker-1'', total_earnings = Some (js_num 100),
      pending_earnings = Some (js_num 5), approved_earnings = Some (js_num 50),
      tasks_completed = Some (js_num 3), membership_tier = TierRegular,
      membership_expires_at = None, daily_tasks_used = 2, membership_status = None\<rparr>"

definition new_worker_profile :: profile_row where
  "new_worker_profile =
     \<lparr>prof_id = ''worker-2'', total_earnings = None, pending_earnings = None,
      approved_earnings = None, tasks_completed = None, membership_tier = TierNone,
      membership_expires_at = None, daily_tasks_used = 0, membership_status = None\<rparr>"

definition pending_submission :: submission where
  "pending_submission =
     \<lparr>sub_id = ''sub-1'', submission_content = ''done'', sub_status = Pending,
      admin_feedback = None, payment_amount = js_num 10, created_at = ''2026-01-10T08:00:00.000Z'',
      reviewed_at = None, reviewed_by = None, sub_user_id = ''worker-1''\<rparr>"

definition new_worker_submission :: submission where
  "new_worker_submission =
     \<lparr>sub_id = ''sub-2'', submission_content = ''first task'', sub_status = Pending,
      admin_feedback = None, payment_amount = js_num 7, created_at = ''2026-01-11T08:00:00.000Z'',
      reviewed_at = None, reviewed_by = None, sub_user_id = ''worker-2''\<rparr>"

definition approved_submission :: submission where
  "approved_submission =
     \<lparr>sub_id = ''sub-3'', submission_content = ''report'', sub_status = Approved,
      admin_feedback = Some ''ok'', payment_amount = js_num 4, created_at = ''2026-01-09T08:00:00.000Z'',
      reviewed_at = Some ''2026-01-09T09:00:00.000Z'', reviewed_by = Some ''admin-1'',
      sub_user_id = ''worker-1''\<rparr>"

definition review_db :: database where
  "review_db =
     \<lparr>job_submissions = [pending_submission, new_worker_submission, approved_submission],
      profiles = [worker_profile, new_worker_profile],
      transactions = []\<rparr>"

definition review_page :: admin_page where
  "review_page =
     \<lparr>admin_user = Some ''admin-1'', selectedSubmission = None, feedback = [],
      reviewDialogOpen = False, isReviewing = False\<rparr>"

definition backend_up :: review_env where
  "backend_up =
     \<lparr>now_iso = ''2026-01-12T10:00:00.000Z'', submission_update = Ok, profile_select = Ok,
      earnings_update = Ok, fetch_data_throws = False\<rparr>"

text \<open>
  A worker with 0.1 earned, paid 0.2: the doubles nearest to these amounts, which are
  what \<^verbatim>\<open>0.1\<close> and \<^verbatim>\<open>0.2\<close> denote in JavaScript and in JSON.
\<close>

definition tenth :: double where
  "tenth = js_num (3602879701896397 / 36028797018963968)"

definition fifth :: double where
  "fifth = js_num (3602879701896397 / 18014398509481984)"

definition cents_profile :: profile_row where
  "cents_profile =
     \<lparr>prof_id = ''worker-3'', total_earnings = Some tenth, pending_earnings = None,
      approved_earnings = Some tenth, tasks_completed = Some (js_num 3),
      membership_tier = TierRegular, membership_expires_at = None, daily_tasks_used = 0,
      membership_status = None\<rparr>"

definition cents_submission :: submission where
  "cents_submission =
     \<lparr>sub_id = ''sub-4'', submission_content = ''survey'', sub_status = Pending,
      admin_feedback = None, payment_amount = fifth, created_at = ''2026-01-11T09:00:00.000Z'',
      reviewed_at = None, reviewed_by = None, sub_user_id = ''worker-3''\<rparr>"

definition cents_db :: database where
  "cents_db = \<lparr>job_submissions = [cents_submission], profiles = [cents_profile], transactions = []\<rparr>"

section \<open>Checkout.tsx: recording the intent to pay\<close>

record plan =
  plan_name :: string
  price :: jsnum
  plan_tier :: tier

text \<open>
  \<^verbatim>\<open>planDetails\<close> (lines 21-25) with the lookup of line 27 for its three own keys. (The
  \<^verbatim>\<open>in\<close> operator also accepts keys inherited from \<^verbatim>\<open>Object.prototype\<close>; such a key is
  not a plan and is outside this model.)
\<close>

definition planDetails :: "string \<Rightarrow> plan option" where
  "planDetails k =
     (if k = ''regular'' then Some \<lparr>plan_name = ''Regular'', price = 15, plan_tier = TierRegular\<rparr>
      else if k = ''pro'' then Some \<lparr>plan_name = ''Pro'', price = 25, plan_tier = TierPro\<rparr>
      else if k = ''vip'' then Some \<lparr>plan_name = ''VIP'', price = 49, plan_tier = TierVip\<rparr>
      else None)"

definition tronAddress :: string where
  "tronAddress = ''TMo91D2bi4EQUGBQDQyFF7rvvNGHmETAU''"

subsection \<open>The calendar of \<^verbatim>\<open>Date.prototype.setMonth\<close>\<close>

text \<open>
  \<^verbatim>\<open>setMonth(m)\<close> keeps the year, the day of the month and the time of day and replaces the
  month; ECMAScript's \<^verbatim>\<open>MakeDay(year, m, date)\<close> then counts \<open>date - 1\<close> days on from the
  first day of month \<open>m mod 12\<close> of year \<open>year + m div 12\<close>, so a day that the month does
  not have runs over into the following month. The dates are the local fields of the
  \<^verbatim>\<open>Date\<close>; the time zone (and a change of its offset between the two dates) is not
  modelled. \<open>day\<close> is at least 1, as \<^verbatim>\<open>getDate()\<close> gives it.
\<close>

definition is_leap_year :: "int \<Rightarrow> bool" where
  "is_leap_year y = ((y mod 4 = 0 \<and> y mod 100 \<noteq> 0) \<or> y mod 400 = 0)"

definition days_in_month :: "int \<Rightarrow> nat \<Rightarrow> nat" where
  "days_in_month y m =
     (if m = 1 then (if is_leap_year y then 29 else 28)
      else if m = 3 \<or> m = 5 \<or> m = 8 \<or> m = 10 then 30
      else 31)"

function MakeDay :: "int \<Rightarrow> nat \<Rightarrow> nat \<Rightarrow> int \<times> nat \<times> nat" where
  "MakeDay y m d =
     (let y' = y + int (m div 12); m' = m mod 12 in
      if d \<le> days_in_month y' m' then (y', m', d)
      else MakeDay y' (m' + 1) (d - days_in_month y' m'))"
  by pat_completeness auto
termination
  by (relation "measure (\<lambda>(y, m, d). d)") (auto simp: days_in_month_def)

declare MakeDay.simps [simp del]

definition getMonth :: "js_date \<Rightarrow> nat" where
  "getMonth t = month t"

definition setMonth :: "js_date \<Rightarrow> nat \<Rightarrow> js_date" where
  "setMonth t m =
     (case MakeDay (year t) m (day t) of
        (y', m', d') \<Rightarrow> t\<lparr>year := y', month := m', day := d'\<rparr>)"

text \<open>
  From the specification's words, to compare with \<open>setMonth\<close>: a date \<open>e\<close> is one calendar
  month ahead of \<open>t\<close> when it has the same day of the month and time of day, in the
  calendar month after that of \<open>t\<close>.
\<close>

definition next_calendar_month :: "js_date \<Rightarrow> int \<times> nat" where
  "next_calendar_month t = (if month t = 11 then (year t + 1, 0) else (year t, month t + 1))"

definition one_calendar_month_ahead :: "js_date \<Rightarrow> js_date \<Rightarrow> bool" where
  "one_calendar_month_ahead t e =
     ((year e, month e) = next_calendar_month t \<and> day e = day t \<and> ms_of_day e = ms_of_day t)"

subsection \<open>The template string of the reference id\<close>

definition digit_char :: "nat \<Rightarrow> char" where
  "digit_char d = ''0123456789'' ! d"

function string_of_nat :: "nat \<Rightarrow> string" where
  "string_of_nat n =
     (if n < 10 then [digit_char n] else string_of_nat (n div 10) @ [digit_char (n mod 10)])"
  by pat_completeness auto
termination
  by (relation "measure id") auto

declare string_of_nat.simps [simp del]

subsection \<open>\<^verbatim>\<open>handlePayNow\<close>\<close>

record checkout_page =
  co_user :: "string option"
  currentPlan :: "plan option"
  isProcessing :: bool
  paymentInitiated :: bool
  co_error :: "string option"

text \<open>
  \<open>date_now\<close> is \<^verbatim>\<open>Date.now()\<close> at line 94 and \<open>new_date\<close> is \<^verbatim>\<open>new Date()\<close> at line 109.
\<close>

record checkout_env =
  date_now :: nat
  new_date :: js_date
  transaction_insert :: response
  membership_update :: response

text \<open>
  The requests, warnings, toast and timer of the handler, in order; the
  \<^verbatim>\<open>console.log\<close> lines are left out.
\<close>

datatype checkout_event =
    InsertTransaction transaction
  | UpdateMembership string tier js_date jsnum string
  | RefreshProfile
  | CoToast string string
  | CoWarn string
  | CoError string
  | NavigateAfter nat string

text \<open>Lines 83-104: the transaction record, in its own try/catch.\<close>

definition transaction_record :: "checkout_env \<Rightarrow> string \<Rightarrow> plan \<Rightarrow> transaction" where
  "transaction_record env uid pl =
     \<lparr>tx_user_id = uid,
      tx_type = ''subscription'',
      amount = - price pl,
      tx_status = ''pending'',
      description = plan_name pl @ '' Membership - USDT Payment Pending'',
      reference_id = ''usdt_'' @ string_of_nat (date_now env) @ ''_'' @ uid\<rparr>"

definition create_transaction ::
  "checkout_env \<Rightarrow> string \<Rightarrow> plan \<Rightarrow> database \<Rightarrow> database \<times> checkout_event list" where
  "create_transaction env uid pl db =
     (let row = transaction_record env uid pl in
      case transaction_insert env of
        Ok \<Rightarrow> (db\<lparr>transactions := transactions db @ [row]\<rparr>, [InsertTransaction row])
      | Error m \<Rightarrow> (db, [InsertTransaction row, CoWarn ''Transaction record not created:''])
      | Rejects m \<Rightarrow> (db, [InsertTransaction row, CoWarn ''Database operation failed:'']))"

text \<open>
  Lines 106-131: the profile update and \<^verbatim>\<open>refreshProfile\<close>, in their own try/catch. A
  rejected update skips \<^verbatim>\<open>refreshProfile\<close>; \<^verbatim>\<open>refreshProfile\<close> itself does not throw
  (\<^verbatim>\<open>fetchUserData\<close> catches what its requests throw).
\<close>

definition update_membership ::
  "checkout_env \<Rightarrow> string \<Rightarrow> plan \<Rightarrow> database \<Rightarrow> database \<times> checkout_event list" where
  "update_membership env uid pl db =
     (let expiresAt = setMonth (new_date env) (getMonth (new_date env) + 1);
          req = UpdateMembership uid (plan_tier pl) expiresAt 0 ''pending_payment''
      in case membership_update env of
           Ok \<Rightarrow>
             (db\<lparr>profiles :=
                  update_where (\<lambda>r. prof_id r = uid)
                    (\<lambda>r. r\<lparr>membership_tier := plan_tier pl,
                            membership_expires_at := Some expiresAt,
                            daily_tasks_used := 0,
                            membership_status := Some ''pending_payment''\<rparr>)
                    (profiles db)\<rparr>,
              [req, RefreshProfile])
         | Error m \<Rightarrow> (db, [req, CoWarn ''Profile update failed:'', RefreshProfile])
         | Rejects m \<Rightarrow> (db, [req, CoWarn ''Profile update failed:'']))"

text \<open>
  \<^verbatim>\<open>handlePayNow\<close> (lines 66-151). Nothing outside the two inner try blocks throws, so the
  outer \<^verbatim>\<open>catch\<close> (\<^verbatim>\<open>setError\<close>) is never entered.
\<close>

definition handlePayNow ::
  "checkout_env \<Rightarrow> checkout_page \<times> database \<Rightarrow> checkout_page \<times> database \<times> checkout_event list" where
  "handlePayNow env s =
     (let (pg, db) = s in
      case (co_user pg, currentPlan pg) of
        (Some uid, Some pl) \<Rightarrow>
          (let pg1 = pg\<lparr>isProcessing := True, co_error := None\<rparr>;
               pg2 = pg1\<lparr>paymentInitiated := True\<rparr>;
               (db1, ev1) = create_transaction env uid pl db;
               (db2, ev2) = update_membership env uid pl db1
           in (pg2\<lparr>isProcessing := False\<rparr>, db2,
               ev1 @ ev2 @
               [CoToast ''Payment Instructions''
                  ''Please send USDT to the address shown. Your membership will be activated after verification.'',
                NavigateAfter 10000 ''/dashboard'']))
      | _ \<Rightarrow> (pg, db, [CoError ''Missing user or current plan'']))"

fun is_transaction_insert :: "checkout_event \<Rightarrow> bool" where
  "is_transaction_insert (InsertTransaction _) = True"
| "is_transaction_insert _ = False"

fun is_membership_update :: "checkout_event \<Rightarrow> bool" where
  "is_membership_update (UpdateMembership _ _ _ _ _) = True"
| "is_membership_update _ = False"

fun is_warning :: "checkout_event \<Rightarrow> bool" where
  "is_warning (CoWarn _) = True"
| "is_warning _ = False"

subsection \<open>A concrete checkout\<close>

definition last_of_january :: js_date where
  "last_of_january = \<lparr>year = 2026, month = 0, day = 31, ms_of_day = 43200000\<rparr>"

definition mid_april :: js_date where
  "mid_april = \<lparr>year = 2026, month = 3, day = 15, ms_of_day = 34200000\<rparr>"

definition checkout_page0 :: checkout_page where
  "checkout_page0 =
     \<lparr>co_user = Some ''worker-1'', currentPlan = planDetails ''pro'', isProcessing = False,
      paymentInitiated = False, co_error = None\<rparr>"

definition checkout_db :: database where
  "checkout_db = \<lparr>job_submissions = [], profiles = [worker_profile, new_worker_profile], transactions = []\<rparr>"

definition checkout_january :: checkout_env where
  "checkout_january =
     \<lparr>date_now = 1769860800000, new_date = last_of_january, transaction_insert = Ok,
      membership_update = Ok\<rparr>"

definition checkout_april :: checkout_env where
  "checkout_april =
     \<lparr>date_now = 1776245400000, new_date = mid_april, transaction_insert = Ok,
      membership_update = Ok\<rparr>"

definition checkout_backend_down :: checkout_env where
  "checkout_backend_down =
     \<lparr>date_now = 1776245400000, new_date = mid_april,
      transaction_insert = Rejects ''Failed to fetch'',
      membership_update = Error ''permission denied''\<rparr>"

section \<open>useAuth.tsx: the session state\<close>

text \<open>
  A string typed into a form is its sequence of UTF-16 code units, which is what
  \<^verbatim>\<open>length\<close> counts and what a regular expression without the \<^verbatim>\<open>u\<close> flag reads. Ids and
  the fixed messages are \<open>string\<close>s.
\<close>

type_synonym jsstring = "nat list"

text \<open>\<^verbatim>\<open>String.prototype.includes\<close>.\<close>

fun js_includes :: "'a list \<Rightarrow> 'a list \<Rightarrow> bool" where
  "js_includes [] pat = (pat = [])"
| "js_includes (c # cs) pat = (prefix pat (c # cs) \<or> js_includes cs pat)"

record auth_user =
  user_id :: string
  user_email :: jsstring

record auth_session =
  access_token :: string
  session_user :: auth_user

text \<open>
  The five \<^verbatim>\<open>useState\<close> cells of \<^verbatim>\<open>AuthProvider\<close> and the module variable
  \<^verbatim>\<open>cachedUserData\<close> (an object \<^verbatim>\<open>{profile, isAdmin}\<close> or null).
\<close>

record auth_state =
  user :: "auth_user option"
  session :: "auth_session option"
  profile :: "profile_row option"
  isAdmin :: bool
  isLoading :: bool
  cachedUserData :: "(profile_row option \<times> bool) option"

datatype auth_event =
    SetIsLoading bool
  | SetSession "auth_session option"
  | SetUser "auth_user option"
  | SetProfile "profile_row option"
  | SetIsAdmin bool
  | SignInWithPassword jsstring jsstring
  | StartTimeout nat
  | SelectProfileRow string
  | SelectAdminRole string
  | AuthWarn string
  | AuthError string
  | AuthLog string

text \<open>
  How \<^verbatim>\<open>Promise.race([fetchPromise, timeoutPromise])\<close> of line 79 settles. \<open>TimedOut\<close>: the
  timer resolves first, with null. \<open>FetchRejected\<close>: \<^verbatim>\<open>Promise.all\<close> rejects first, and
  the \<^verbatim>\<open>await\<close> throws. \<open>Fetched p r\<close>: both requests resolve first; \<open>p\<close> is
  \<^verbatim>\<open>profileResult.data\<close> (null when that request failed) and \<open>r\<close> says whether
  \<^verbatim>\<open>roleResult.data\<close> is a row.
\<close>

datatype fetch_outcome = TimedOut | FetchRejected string | Fetched "profile_row option" bool

text \<open>
  \<^verbatim>\<open>fetchUserData\<close> (lines 51-101). \<open>cu\<close> is the \<^verbatim>\<open>user\<close> that the closure captured when
  it was rendered; a \<^verbatim>\<open>setUser\<close> made since then does not change it. The timer and the two
  requests are all started before the \<^verbatim>\<open>await\<close>.
\<close>

definition fetchUserData ::
  "auth_user option \<Rightarrow> fetch_outcome \<Rightarrow> string \<Rightarrow> auth_state \<Rightarrow> auth_state \<times> auth_event list" where
  "fetchUserData cu outcome userId st =
     (case (if map_option user_id cu = Some userId then cachedUserData st else None) of
        Some (p, a) \<Rightarrow> (st\<lparr>profile := p, isAdmin := a\<rparr>, [SetProfile p, SetIsAdmin a])
      | None \<Rightarrow>
         (let started = [StartTimeout 5000, SelectProfileRow userId, SelectAdminRole userId] in
          case outcome of
            TimedOut \<Rightarrow> (st, started @ [AuthWarn ''User data fetch timed out''])
          | FetchRejected m \<Rightarrow> (st, started @ [AuthWarn ''Error fetching user data:''])
          | Fetched pdata role \<Rightarrow>
             (case pdata of
                Some p \<Rightarrow>
                  (st\<lparr>profile := Some p, cachedUserData := Some (Some p, role), isAdmin := role\<rparr>,
                   started @ [SetProfile (Some p), SetIsAdmin role])
              | None \<Rightarrow> (st\<lparr>isAdmin := role\<rparr>, started @ [SetIsAdmin role]))))"

text \<open>
  The answer of \<^verbatim>\<open>supabase.auth.signInWithPassword\<close>: \<^verbatim>\<open>{data: {session}, error: null}\<close>,
  \<^verbatim>\<open>{error}\<close> with its message, or a rejected promise.
\<close>

datatype auth_response = AuthOk "auth_session option" | AuthErr string | AuthThrows string

text \<open>
  What \<^verbatim>\<open>signIn\<close> meets while it runs: the answer of the backend, what the module
  variable \<^verbatim>\<open>cachedUserData\<close> holds when \<^verbatim>\<open>signIn\<close> resumes after
  \<^verbatim>\<open>await signInWithPassword\<close> (line 218; null unless a fetch of the auth listener
  refilled it in the meantime, lines 90-93), and how the race of its own fetch settles.
\<close>

record signin_env =
  signin_response :: auth_response
  cache_on_resume :: "(profile_row option \<times> bool) option"
  user_data :: fetch_outcome

text \<open>How a call of an async function ends for the caller that awaits it.\<close>

datatype 'a completion = Returns 'a | Throws string

text \<open>
  The \<^verbatim>\<open>try\<close> block of \<^verbatim>\<open>signIn\<close> (lines 215-241) from the point where the
  \<^verbatim>\<open>await\<close> of line 218 resumes, in the state \<open>st\<close> found there; \<open>Inl m\<close> is an exception,
  with the events before it.
\<close>

definition signIn_try ::
  "signin_env \<Rightarrow> auth_user option \<Rightarrow> auth_state \<Rightarrow>
   (string + auth_state \<times> string option) \<times> auth_event list" where
  "signIn_try env cu st =
     (case signin_response env of
        AuthThrows m \<Rightarrow> (Inl m, [])
      | AuthErr m \<Rightarrow>
          (Inr (st\<lparr>isLoading := False\<rparr>,
                Some (if js_includes m ''Email not confirmed''
                      then ''Please verify your email first. Check your inbox.'' else m)),
           [SetIsLoading False])
      | AuthOk None \<Rightarrow> (Inr (st\<lparr>isLoading := False\<rparr>, None), [SetIsLoading False])
      | AuthOk (Some s) \<Rightarrow>
          (let st2 = st\<lparr>session := Some s, user := Some (session_user s)\<rparr>;
               (st3, ev3) = fetchUserData cu (user_data env) (user_id (session_user s)) st2
           in (Inr (st3\<lparr>isLoading := False\<rparr>, None),
               [SetSession (Some s), SetUser (Some (session_user s))] @ ev3 @ [SetIsLoading False])))"

text \<open>
  \<^verbatim>\<open>signIn\<close> (lines 213-247): \<^verbatim>\<open>setIsLoading(true)\<close> and the clearing of the cache, the
  \<^verbatim>\<open>await\<close>, during which the cache may be written again, and the rest of the \<^verbatim>\<open>try\<close>
  block with the \<^verbatim>\<open>catch\<close>. The result is the new state, the \<^verbatim>\<open>error\<close> of the returned
  object (its message, or \<open>None\<close> for null) and the events.
\<close>

definition signIn ::
  "signin_env \<Rightarrow> jsstring \<Rightarrow> jsstring \<Rightarrow> auth_state \<Rightarrow>
   (auth_state \<times> string option \<times> auth_event list) completion" where
  "signIn env em pw st =
     (let st1 = st\<lparr>isLoading := True, cachedUserData := None\<rparr>;
          ev1 = [SetIsLoading True, SignInWithPassword em pw];
          resumed = st1\<lparr>cachedUserData := cache_on_resume env\<rparr>
      in case signIn_try env (user st) resumed of
           (Inr (st', err), ev2) \<Rightarrow> Returns (st', err, ev1 @ ev2)
         | (Inl m, ev2) \<Rightarrow>
             Returns (resumed\<lparr>isLoading := False\<rparr>, Some m,
                      ev1 @ ev2 @ [SetIsLoading False, AuthError ''Sign in exception:'']))"

text \<open>
  The debounced body of the auth listener (lines 177-195), run for one event. Its closure
  is that of the first render.
\<close>

definition authStateChange ::
  "auth_user option \<Rightarrow> fetch_outcome \<Rightarrow> auth_session option \<Rightarrow> auth_state \<Rightarrow>
   auth_state \<times> auth_event list" where
  "authStateChange cu outcome newSession st =
     (let newUser = map_option session_user newSession;
          st1 = (if map_option user_id newUser \<noteq> map_option user_id cu
                 then st\<lparr>cachedUserData := None\<rparr> else st);
          st2 = st1\<lparr>session := newSession, user := newUser\<rparr>;
          ev2 = [AuthLog ''Auth state change:'', SetSession newSession, SetUser newUser];
          (st3, ev3) =
            (case newUser of
               Some u \<Rightarrow> fetchUserData cu outcome (user_id u) st2
             | None \<Rightarrow> (st2\<lparr>profile := None, isAdmin := False\<rparr>, [SetProfile None, SetIsAdmin False]))
      in (st3\<lparr>isLoading := False\<rparr>, ev2 @ ev3 @ [SetIsLoading False]))"

text \<open>The values written to \<open>isLoading\<close>, in order, and the number of times a sequence
  of writes takes the flag from true to false.\<close>

fun loading_writes :: "auth_event list \<Rightarrow> bool list" where
  "loading_writes [] = []"
| "loading_writes (SetIsLoading b # es) = b # loading_writes es"
| "loading_writes (_ # es) = loading_writes es"

fun falls :: "bool \<Rightarrow> bool list \<Rightarrow> nat" where
  "falls b [] = 0"
| "falls b (v # vs) = (if b \<and> \<not> v then 1 else 0) + falls v vs"

text \<open>Events that write the session or the user, or report an error.\<close>

fun reverts_or_reports :: "auth_event \<Rightarrow> bool" where
  "reverts_or_reports (SetSession _) = True"
| "reverts_or_reports (SetUser _) = True"
| "reverts_or_reports (SetIsLoading _) = True"
| "reverts_or_reports (AuthError _) = True"
| "reverts_or_reports _ = False"

section \<open>Auth.tsx: the form\<close>

record form_data =
  fullName :: jsstring
  email :: jsstring
  password :: jsstring
  confirmPassword :: jsstring
  acceptTerms :: bool

subsection \<open>The two schemas\<close>

text \<open>
  The character classes \<^verbatim>\<open>[a-z]\<close>, \<^verbatim>\<open>[A-Z]\<close> and \<^verbatim>\<open>\d\<close>, and the line terminators that
  \<^verbatim>\<open>.\<close> does not match.
\<close>

definition is_lower :: "nat \<Rightarrow> bool" where
  "is_lower c = (97 \<le> c \<and> c \<le> 122)"

definition is_upper :: "nat \<Rightarrow> bool" where
  "is_upper c = (65 \<le> c \<and> c \<le> 90)"

definition is_digit :: "nat \<Rightarrow> bool" where
  "is_digit c = (48 \<le> c \<and> c \<le> 57)"

definition line_terminator :: "nat \<Rightarrow> bool" where
  "line_terminator c = (c = 10 \<or> c = 13 \<or> c = 8232 \<or> c = 8233)"

text \<open>
  A match of \<^verbatim>\<open>.*X\<close> at the start of the string, \<open>X\<close> a character class: \<open>X\<close> matches the
  first unit, or \<^verbatim>\<open>.\<close> takes it and the rest is matched.
\<close>

fun dot_star_then :: "(nat \<Rightarrow> bool) \<Rightarrow> jsstring \<Rightarrow> bool" where
  "dot_star_then X [] = False"
| "dot_star_then X (c # cs) = (X c \<or> (\<not> line_terminator c \<and> dot_star_then X cs))"

text \<open>\<^verbatim>\<open>/^(?=.*[a-z])(?=.*[A-Z])(?=.*\d)/\<close> of line 39.\<close>

definition password_regex :: "jsstring \<Rightarrow> bool" where
  "password_regex pw =
     (dot_star_then is_lower pw \<and> dot_star_then is_upper pw \<and> dot_star_then is_digit pw)"

text \<open>
  The issues of \<^verbatim>\<open>signUpSchema.safeParse\<close> (lines 35-47), each a path and a message:
  those of each key, in the order of the keys, then that of the refinement of the whole
  object; \<^verbatim>\<open>success\<close> is that there is none. A string runs all its checks. The check
  of \<^verbatim>\<open>z.string().email()\<close> is the library's own pattern, here the parameter
  \<open>valid_email\<close>.
\<close>

definition fullName_issues :: "jsstring \<Rightarrow> (string \<times> string) list" where
  "fullName_issues n =
     (if length n < 2 then [(''fullName'', ''Name must be at least 2 characters'')] else [])"

definition email_issues :: "(jsstring \<Rightarrow> bool) \<Rightarrow> jsstring \<Rightarrow> (string \<times> string) list" where
  "email_issues valid_email em =
     (if valid_email em then [] else [(''email'', ''Invalid email address'')])"

definition password_issues :: "jsstring \<Rightarrow> (string \<times> string) list" where
  "password_issues pw =
     (if length pw < 6 then [(''password'', ''Password must be at least 6 characters'')] else []) @
     (if password_regex pw then []
      else [(''password'',
             ''Password must contain at least one uppercase letter, one lowercase letter, and one number'')])"

definition acceptTerms_issues :: "bool \<Rightarrow> (string \<times> string) list" where
  "acceptTerms_issues val =
     (if val = True then [] else [(''acceptTerms'', ''You must accept the terms and conditions'')])"

definition confirmPassword_issues :: "form_data \<Rightarrow> (string \<times> string) list" where
  "confirmPassword_issues fd =
     (if password fd = confirmPassword fd then []
      else [(''confirmPassword'', ''Passwords don't match'')])"

definition signUpSchema :: "(jsstring \<Rightarrow> bool) \<Rightarrow> form_data \<Rightarrow> (string \<times> string) list" where
  "signUpSchema valid_email fd =
     fullName_issues (fullName fd) @ email_issues valid_email (email fd) @
     password_issues (password fd) @ acceptTerms_issues (acceptTerms fd) @
     confirmPassword_issues fd"

definition signInSchema :: "(jsstring \<Rightarrow> bool) \<Rightarrow> jsstring \<Rightarrow> jsstring \<Rightarrow> (string \<times> string) list" where
  "signInSchema valid_email em pw =
     email_issues valid_email em @
     (if length pw < 1 then [(''password'', ''Password is required'')] else [])"

text \<open>
  The complexity pattern in the specification's words: an uppercase letter, a lowercase
  letter, a digit, and length at least 6.
\<close>

definition spec_password_ok :: "jsstring \<Rightarrow> bool" where
  "spec_password_ok pw =
     (list_ex is_upper pw \<and> list_ex is_lower pw \<and> list_ex is_digit pw \<and> 6 \<le> length pw)"

subsection \<open>\<^verbatim>\<open>handleSubmit\<close>\<close>

record auth_page =
  isSignUp :: bool
  formData :: form_data
  errors :: "string \<rightharpoonup> string"
  isSubmitting :: bool
  apiError :: string
  verificationSent :: bool

datatype submit_event =
    CallSignUp jsstring jsstring jsstring
  | CallSignIn jsstring jsstring
  | SubmitConsoleError string

text \<open>Lines 105-110: a later issue of the same field overwrites an earlier one.\<close>

definition fieldErrors :: "(string \<times> string) list \<Rightarrow> (string \<rightharpoonup> string)" where
  "fieldErrors issues = fold (\<lambda>(path, msg) fe. if path \<noteq> [] then fe(path \<mapsto> msg) else fe) issues Map.empty"

definition empty_form :: form_data where
  "empty_form = \<lparr>fullName = [], email = [], password = [], confirmPassword = [], acceptTerms = False\<rparr>"

text \<open>Lines 117-136 and 156-165: what the form does with the \<^verbatim>\<open>error\<close> that came back.\<close>

definition after_signUp :: "string option \<Rightarrow> auth_page \<Rightarrow> auth_page" where
  "after_signUp err pg =
     (case err of
        Some m \<Rightarrow>
          pg\<lparr>apiError :=
               (if js_includes m ''already registered''
                then ''This email is already registered. Please sign in instead.''
                else if js_includes m ''User already registered''
                then ''This email is already registered. Please sign in.''
                else if m = [] then ''Failed to create account. Please try again.'' else m)\<rparr>
      | None \<Rightarrow> pg\<lparr>verificationSent := True, formData := empty_form\<rparr>)"

definition after_signIn :: "string option \<Rightarrow> auth_page \<Rightarrow> auth_page" where
  "after_signIn err pg =
     (case err of
        Some m \<Rightarrow>
          (if js_includes m ''Invalid login''
           then pg\<lparr>apiError := ''Invalid email or password. Please try again.''\<rparr>
           else if js_includes m ''Email not confirmed''
           then pg\<lparr>apiError := ''Please verify your email address before logging in.'',
                   verificationSent := True\<rparr>
           else pg\<lparr>apiError := (if m = [] then ''Failed to sign in. Please try again.'' else m)\<rparr>)
      | None \<Rightarrow> pg)"

text \<open>
  \<^verbatim>\<open>handleSubmit\<close> (lines 95-173). \<open>up\<close> and \<open>inn\<close> are how the calls of \<^verbatim>\<open>signUp\<close> and
  \<^verbatim>\<open>signIn\<close> end if they are made: the \<^verbatim>\<open>error\<close> of the object they return, or an
  exception. The events say which of them was called.
\<close>

definition handleSubmit ::
  "(jsstring \<Rightarrow> bool) \<Rightarrow> string option completion \<Rightarrow> string option completion \<Rightarrow> auth_page \<Rightarrow>
   auth_page \<times> submit_event list" where
  "handleSubmit valid_email up inn pg =
     (let pg1 = pg\<lparr>isSubmitting := True, apiError := [], verificationSent := False\<rparr>;
          fd = formData pg
      in if isSignUp pg then
           (let issues = signUpSchema valid_email fd in
            if issues \<noteq> [] then (pg1\<lparr>errors := fieldErrors issues, isSubmitting := False\<rparr>, [])
            else
              (case up of
                 Returns err \<Rightarrow>
                   ((after_signUp err pg1)\<lparr>isSubmitting := False\<rparr>,
                    [CallSignUp (email fd) (password fd) (fullName fd)])
               | Throws m \<Rightarrow>
                   (pg1\<lparr>apiError := ''An unexpected error occurred. Please try again.'',
                        isSubmitting := False\<rparr>,
                    [CallSignUp (email fd) (password fd) (fullName fd), SubmitConsoleError ''Auth error:''])))
         else
           (let issues = signInSchema valid_email (email fd) (password fd) in
            if issues \<noteq> [] then (pg1\<lparr>errors := fieldErrors issues, isSubmitting := False\<rparr>, [])
            else
              (case inn of
                 Returns err \<Rightarrow>
                   ((after_signIn err pg1)\<lparr>isSubmitting := False\<rparr>,
                    [CallSignIn (email fd) (password fd)])
               | Throws m \<Rightarrow>
                   (pg1\<lparr>apiError := ''An unexpected error occurred. Please try again.'',
                        isSubmitting := False\<rparr>,
                    [CallSignIn (email fd) (password fd), SubmitConsoleError ''Auth error:'']))))"

text \<open>The \<^verbatim>\<open>error\<close> that \<open>signIn\<close> hands to the form.\<close>

definition returned_error :: "(auth_state \<times> string option \<times> auth_event list) completion \<Rightarrow> string option completion" where
  "returned_error c = (case c of Returns (st, err, evs) \<Rightarrow> Returns err | Throws m \<Rightarrow> Throws m)"

text \<open>The events and the state of a call that returned.\<close>

definition result_events :: "(auth_state \<times> string option \<times> auth_event list) completion \<Rightarrow> auth_event list" where
  "result_events c = (case c of Returns (st, err, evs) \<Rightarrow> evs | Throws m \<Rightarrow> [])"

definition result_state :: "(auth_state \<times> string option \<times> auth_event list) completion \<Rightarrow> auth_state option" where
  "result_state c = (case c of Returns (st, err, evs) \<Rightarrow> Some st | Throws m \<Rightarrow> None)"

subsection \<open>A concrete sign-in and sign-up\<close>

definition signed_out :: auth_state where
  "signed_out =
     \<lparr>user = None, session = None, profile = None, isAdmin = False, isLoading = False,
      cachedUserData = None\<rparr>"

definition ada :: auth_user where
  "ada = \<lparr>user_id = ''worker-1'', user_email = [97, 64, 98, 46, 99]\<rparr>"

definition ada_session :: auth_session where
  "ada_session = \<lparr>access_token = ''token-1'', session_user = ada\<rparr>"

definition signed_in :: auth_state where
  "signed_in =
     \<lparr>user = Some ada, session = Some ada_session, profile = None, isAdmin = False,
      isLoading = False, cachedUserData = Some (Some worker_profile, True)\<rparr>"

text \<open>The password \<^verbatim>\<open>abcdef1\<close>, with no uppercase letter, and \<^verbatim>\<open>Abcdef1\<close>.\<close>

definition weak_signup :: auth_page where
  "weak_signup =
     \<lparr>isSignUp = True,
      formData = \<lparr>fullName = [65, 100, 97], email = [97, 64, 98, 46, 99],
                  password = [97, 98, 99, 100, 101, 102, 49],
                  confirmPassword = [97, 98, 99, 100, 101, 102, 49], acceptTerms = True\<rparr>,
      errors = Map.empty, isSubmitting = False, apiError = [], verificationSent = False\<rparr>"

definition signin_form :: auth_page where
  "signin_form =
     \<lparr>isSignUp = False,
      formData = \<lparr>fullName = [], email = [97, 64, 98, 46, 99],
                  password = [65, 98, 99, 100, 101, 102, 49],
                  confirmPassword = [], acceptTerms = False\<rparr>,
      errors = Map.empty, isSubmitting = False, apiError = [], verificationSent = False\<rparr>"

definition sign_in_timeout :: signin_env where
  "sign_in_timeout =
     \<lparr>signin_response = AuthOk (Some ada_session), cache_on_resume = None, user_data = TimedOut\<rparr>"

definition sign_in_refused :: signin_env where
  "sign_in_refused =
     \<lparr>signin_response = AuthErr ''Invalid login credentials'', cache_on_resume = None,
      user_data = TimedOut\<rparr>"

definition sign_in_unconfirmed :: signin_env where
  "sign_in_unconfirmed =
     \<lparr>signin_response = AuthErr ''Email not confirmed'', cache_on_resume = None,
      user_data = TimedOut\<rparr>"

text \<open>A user who is signed in signs in again, and the listener has refilled the cache.\<close>

definition sign_in_again :: signin_env where
  "sign_in_again =
     \<lparr>signin_response = AuthOk (Some ada_session),
      cache_on_resume = Some (Some worker_profile, True), user_data = Fetched None False\<rparr>"

section \<open>Properties of the review\<close>

lemma filter_update_where:
  "(\<And>r. P r \<Longrightarrow> P (f r)) \<Longrightarrow> filter P (update_where P f rows) = map f (filter P rows)"
  by (induction rows) (auto simp: update_where_def)

lemma filter_not_update_where:
  "(\<And>r. P r \<Longrightarrow> P (f r)) \<Longrightarrow>
   filter (\<lambda>r. \<not> P r) (update_where P f rows) = filter (\<lambda>r. \<not> P r) rows"
  by (induction rows) (auto simp: update_where_def)

lemma single_filter: "filter P rows = [r] \<Longrightarrow> single P rows = Some r"
  by (simp add: single_def)

subsection \<open>The sum of doubles\<close>

lemma round_half_even_of_int: "round_half_even (of_int n) = n"
  by (simp add: round_half_even_def)

lemma round_pos_int:
  assumes "0 < n" "n \<le> 2 ^ 53"
  shows "round_pos (of_int n) = of_int n"
proof (cases "n = 2 ^ 53")
  case True
  have h: "halvings (2 ^ 53) = 1"
    by (simp add: halvings.simps)
  have "round_half_even (2 ^ 53 / 2 ^ 1) = 2 ^ 52"
    using round_half_even_of_int [of "2 ^ 52"] by simp
  then show ?thesis using True h by (simp add: round_pos_def)
next
  case False
  then have lt: "\<not> (2 :: rat) ^ 53 \<le> of_int n"
    using assms(2) by (metis of_int_le_iff of_int_numeral of_int_power order_antisym)
  have "of_int n * (2 :: rat) ^ doublings (of_int n) = of_int (n * 2 ^ doublings (of_int n))"
    by simp
  then have "round_half_even (of_int n * 2 ^ doublings (of_int n)) = n * 2 ^ doublings (of_int n)"
    using round_half_even_of_int by metis
  then show ?thesis using lt by (simp add: round_pos_def Let_def)
qed

text \<open>An integer of magnitude up to \<open>2 ^ 53\<close> is a double, and rounding leaves it alone.\<close>

lemma round_double_int: "\<bar>n\<bar> \<le> 2 ^ 53 \<Longrightarrow> round_double (of_int n) = of_int n"
  using round_pos_int [of n] round_pos_int [of "- n"]
  by (auto simp: round_double_def)

lemma is_double_int:
  assumes "\<bar>n\<bar> \<le> 2 ^ 53"
  shows "is_double (of_int n)"
proof -
  have "\<bar>of_int n :: rat\<bar> \<le> 2 ^ 53" using assms
    by (metis of_int_abs of_int_le_iff of_int_numeral of_int_power)
  then have "\<bar>of_int n :: rat\<bar> < 2 ^ 1024" by (rule order_le_less_trans) simp
  moreover have "of_int \<lfloor>of_int n * (2::rat) ^ 1074\<rfloor> = of_int n * (2::rat) ^ 1074"
  proof -
    have "of_int n * (2::rat) ^ 1074 = of_int (n * 2 ^ 1074)" by simp
    then show ?thesis by (metis floor_of_int)
  qed
  ultimately show ?thesis using round_double_int [OF assms] by (simp add: is_double_def)
qed

lemma doublings_bounds:
  "0 < x \<Longrightarrow> x < 2 ^ 53 \<Longrightarrow> 2 ^ 52 \<le> x * 2 ^ doublings x \<and> x * 2 ^ doublings x < 2 ^ 53"
proof (induction x rule: doublings.induct)
  case (1 x)
  show ?case
  proof (cases "x < 2 ^ 52")
    case True
    then have d: "doublings x = Suc (doublings (2 * x))"
      using "1.prems"(1) by (simp add: doublings.simps [of x])
    have "2 ^ 52 \<le> 2 * x * 2 ^ doublings (2 * x) \<and> 2 * x * 2 ^ doublings (2 * x) < 2 ^ 53"
      using "1.IH" "1.prems"(1) True by simp
    then show ?thesis by (simp add: d mult.assoc mult.left_commute)
  next
    case False
    then have "doublings x = 0" by (simp add: doublings.simps [of x])
    then show ?thesis using False "1.prems"(2) by simp
  qed
qed

lemma halvings_bounds:
  "2 ^ 53 \<le> x \<Longrightarrow> 2 ^ 52 \<le> x / 2 ^ halvings x \<and> x / 2 ^ halvings x < 2 ^ 53"
proof (induction x rule: halvings.induct)
  case (1 x)
  have h: "halvings x = Suc (halvings (x / 2))"
    using "1.prems" by (simp add: halvings.simps [of x])
  show ?case
  proof (cases "2 ^ 53 \<le> x / 2")
    case True
    then have "2 ^ 52 \<le> x / 2 / 2 ^ halvings (x / 2) \<and> x / 2 / 2 ^ halvings (x / 2) < 2 ^ 53"
      using "1.IH" "1.prems" by simp
    then show ?thesis by (simp add: h)
  next
    case False
    then have "halvings (x / 2) = 0" by (simp add: halvings.simps [of "x / 2"])
    then show ?thesis using False "1.prems" by (simp add: h)
  qed
qed

lemma doublings_unique:
  "0 < x \<Longrightarrow> 2 ^ 52 \<le> x * 2 ^ d \<Longrightarrow> x * 2 ^ d < 2 ^ 53 \<Longrightarrow> doublings x = d"
proof (induction d arbitrary: x)
  case 0
  then show ?case by (simp add: doublings.simps [of x])
next
  case (Suc d)
  have lt: "x < 2 ^ 52"
  proof (rule ccontr)
    assume "\<not> x < 2 ^ 52"
    then have g: "2 ^ 52 \<le> x" by simp
    then have n: "0 \<le> x" by (rule order_trans [rotated]) simp
    have t: "(2::rat) \<le> 2 ^ Suc d" by simp
    have "2 ^ 52 * 2 \<le> x * 2 ^ Suc d"
      using g t n by (rule mult_mono) simp
    then show False using Suc.prems(3) by simp
  qed
  have "doublings (2 * x) = d"
    using Suc.IH [of "2 * x"] Suc.prems by (simp add: mult.assoc mult.left_commute)
  then show ?case using lt Suc.prems(1) by (simp add: doublings.simps [of x])
qed

lemma halvings_unique:
  "2 ^ 52 \<le> x / 2 ^ h \<Longrightarrow> x / 2 ^ h < 2 ^ 53 \<Longrightarrow> halvings x = h"
proof (induction h arbitrary: x)
  case 0
  then show ?case by (simp add: halvings.simps [of x])
next
  case (Suc h)
  have ge: "2 ^ 53 \<le> x"
  proof -
    have a: "(2::rat) ^ 52 * 2 ^ Suc h \<le> x" using Suc.prems(1) by (simp add: pos_le_divide_eq)
    have "(2::rat) \<le> 2 ^ Suc h" by simp
    then have "(2::rat) ^ 52 * 2 \<le> 2 ^ 52 * 2 ^ Suc h" by (rule mult_left_mono) simp
    then have "(2::rat) ^ 53 \<le> 2 ^ 52 * 2 ^ Suc h" by simp
    then show ?thesis using a by (rule order_trans)
  qed
  have "halvings (x / 2) = h"
    using Suc.IH [of "x / 2"] Suc.prems by simp
  then show ?case using ge by (simp add: halvings.simps [of x])
qed

lemma round_half_even_bounds:
  assumes "2 ^ 52 \<le> y" "y < 2 ^ 53"
  shows "2 ^ 52 \<le> round_half_even y \<and> round_half_even y \<le> 2 ^ 53"
proof -
  have "(2::int) ^ 52 \<le> \<lfloor>y\<rfloor>" using assms(1) by (simp add: le_floor_iff)
  moreover have "\<lfloor>y\<rfloor> < 2 ^ 53" using assms(2) by (simp add: floor_less_iff)
  ultimately show ?thesis by (auto simp: round_half_even_def Let_def)
qed


lemma round_pos_down:
  assumes "2 ^ 52 \<le> m" "m < 2 ^ 53"
  shows "round_pos (of_int m / 2 ^ d) = of_int m / 2 ^ d"
proof -
  let ?r = "of_int m / (2::rat) ^ d"
  have m1: "(2::rat) ^ 52 \<le> of_int m" using assms(1)
    by (metis of_int_le_iff of_int_numeral of_int_power)
  have m2: "of_int m < (2::rat) ^ 53" using assms(2)
    by (metis of_int_less_iff of_int_numeral of_int_power)
  have p: "0 < ?r" using m1 by (simp add: order_less_le_trans [of 0 "2 ^ 52"])
  have s: "?r * 2 ^ d = of_int m" by simp
  have u: "doublings ?r = d"
    by (rule doublings_unique [OF p]) (simp_all only: s m1 m2)
  have "?r \<le> of_int m"
    using m1 by (simp add: divide_le_eq order_trans [of 0 "2 ^ 52"] mult_le_cancel_left1)
  then have lt: "\<not> 2 ^ 53 \<le> ?r" using m2 by simp
  show ?thesis
    unfolding round_pos_def using lt by (simp only: if_False Let_def u s round_half_even_of_int)
qed

lemma round_pos_up:
  assumes "2 ^ 52 \<le> m" "m < 2 ^ 53"
  shows "round_pos (of_int m * 2 ^ Suc h) = of_int m * 2 ^ Suc h"
proof -
  let ?r = "of_int m * (2::rat) ^ Suc h"
  have m1: "(2::rat) ^ 52 \<le> of_int m" using assms(1)
    by (metis of_int_le_iff of_int_numeral of_int_power)
  have m2: "of_int m < (2::rat) ^ 53" using assms(2)
    by (metis of_int_less_iff of_int_numeral of_int_power)
  have s: "?r / 2 ^ Suc h = of_int m" by simp
  have u: "halvings ?r = Suc h"
    by (rule halvings_unique) (simp_all only: s m1 m2)
  have "(2::rat) ^ 52 * 2 \<le> of_int m * 2 ^ Suc h"
    using m1 by (intro mult_mono) simp_all
  then have ge: "2 ^ 53 \<le> ?r" by simp
  show ?thesis
    unfolding round_pos_def using ge by (simp only: if_True Let_def u s round_half_even_of_int)
qed

text \<open>The result of the rounding, as a significand and a scaling.\<close>

lemma round_pos_form:
  assumes "0 < x"
  shows "\<exists>m. 2 ^ 52 \<le> m \<and> m \<le> 2 ^ 53 \<and>
           (round_pos x = of_int m / 2 ^ doublings x \<and> x < 2 ^ 53 \<or>
            round_pos x = of_int m * 2 ^ halvings x \<and> 2 ^ 53 \<le> x \<and> 0 < halvings x)"
proof (cases "2 ^ 53 \<le> x")
  case True
  note b = halvings_bounds [OF True]
  note r = round_half_even_bounds [OF b [THEN conjunct1] b [THEN conjunct2]]
  have "0 < halvings x" using True by (simp add: halvings.simps [of x])
  then show ?thesis using r True by (auto simp: round_pos_def Let_def)
next
  case False
  then have lt: "x < 2 ^ 53" by simp
  note b = doublings_bounds [OF assms lt]
  note r = round_half_even_bounds [OF b [THEN conjunct1] b [THEN conjunct2]]
  show ?thesis using r False lt by (auto simp: round_pos_def Let_def)
qed

lemma round_pos_idem:
  assumes "0 < x"
  shows "round_pos (round_pos x) = round_pos x \<and> 0 < round_pos x"
proof -
  obtain m where m: "2 ^ 52 \<le> m" "m \<le> 2 ^ 53"
    and f: "round_pos x = of_int m / 2 ^ doublings x \<and> x < 2 ^ 53 \<or>
            round_pos x = of_int m * 2 ^ halvings x \<and> 2 ^ 53 \<le> x \<and> 0 < halvings x"
    using round_pos_form [OF assms] by blast
  have mp: "(0::rat) < of_int m" using m(1) by simp
  have i: "round_pos (round_pos x) = round_pos x"
  proof (cases "m = 2 ^ 53")
    case False
    then have lt: "m < 2 ^ 53" using m(2) by simp
    from f show ?thesis
    proof
      assume "round_pos x = of_int m / 2 ^ doublings x \<and> x < 2 ^ 53"
      then show ?thesis using round_pos_down [OF m(1) lt] by simp
    next
      assume a: "round_pos x = of_int m * 2 ^ halvings x \<and> 2 ^ 53 \<le> x \<and> 0 < halvings x"
      then obtain h where "halvings x = Suc h" by (cases "halvings x") simp_all
      then show ?thesis using a round_pos_up [OF m(1) lt] by simp
    qed
  next
    case True
    have a52: "(2::int) ^ 52 \<le> 2 ^ 52" "(2::int) ^ 52 < 2 ^ 53" by simp_all
    from f show ?thesis
    proof
      assume a: "round_pos x = of_int m / 2 ^ doublings x \<and> x < 2 ^ 53"
      show ?thesis
      proof (cases "doublings x")
        case 0
        then have "round_pos x = of_int (2 ^ 53)" using a True by simp
        then show ?thesis using round_pos_int [of "2 ^ 53"] by simp
      next
        case (Suc d)
        then have "round_pos x = of_int (2 ^ 52) / 2 ^ d" using a True by simp
        then show ?thesis using round_pos_down [OF a52, of d] by simp
      qed
    next
      assume a: "round_pos x = of_int m * 2 ^ halvings x \<and> 2 ^ 53 \<le> x \<and> 0 < halvings x"
      then have "round_pos x = of_int (2 ^ 52) * 2 ^ Suc (halvings x)" using True by simp
      then show ?thesis using round_pos_up [OF a52, of "halvings x"] by simp
    qed
  qed
  have "0 < round_pos x" using f mp by auto
  with i show ?thesis by simp
qed

lemma round_double_idem: "round_double (round_double x) = round_double x"
proof (cases "x = 0")
  case True
  then show ?thesis by (simp add: round_double_def)
next
  case False
  show ?thesis
  proof (cases "0 < x")
    case True
    then show ?thesis using round_pos_idem [of x] by (simp add: round_double_def)
  next
    case False
    then have "0 < - x" using \<open>x \<noteq> 0\<close> by simp
    then show ?thesis using round_pos_idem [of "- x"] False \<open>x \<noteq> 0\<close>
      by (simp add: round_double_def)
  qed
qed

lemma round_pos_grid:
  assumes "0 < x" "x * 2 ^ N \<in> \<int>"
  shows "round_pos x * 2 ^ N \<in> \<int>"
proof (cases "2 ^ 53 \<le> x")
  case True
  then show ?thesis by (simp add: round_pos_def Let_def)
next
  case False
  let ?d = "doublings x"
  show ?thesis
  proof (cases "?d \<le> N")
    case True
    have "(2::rat) ^ N = 2 ^ ?d * 2 ^ (N - ?d)"
      using True by (simp add: power_add [symmetric])
    then have "round_pos x * 2 ^ N =
                 of_int (round_half_even (x * 2 ^ ?d)) * 2 ^ (N - ?d)"
      using False by (simp add: round_pos_def Let_def)
    then show ?thesis by simp
  next
    case g: False
    have e: "(2::rat) ^ ?d = 2 ^ N * 2 ^ (?d - N)"
      using g by (simp add: power_add [symmetric])
    have q: "x * 2 ^ ?d = (x * 2 ^ N) * of_int (2 ^ (?d - N))"
      by (subst e) simp
    have w: "(x * 2 ^ N) * of_int (2 ^ (?d - N)) \<in> \<int>"
      by (rule Ints_mult [OF assms(2) Ints_of_int])
    have "x * 2 ^ ?d \<in> \<int>" unfolding q by (rule w)
    then obtain n where n: "x * 2 ^ ?d = of_int n" by (rule Ints_cases)
    have "round_pos x = x"
      using False by (simp add: round_pos_def Let_def n round_half_even_of_int)
         (simp add: n [symmetric])
    then show ?thesis using assms(2) by simp
  qed
qed

lemma round_double_grid:
  assumes "x * 2 ^ N \<in> \<int>"
  shows "round_double x * 2 ^ N \<in> \<int>"
proof -
  have n: "- x * 2 ^ N \<in> \<int>" using assms by (metis Ints_minus mult_minus_left)
  have "- (round_pos (- x) * 2 ^ N) \<in> \<int>" if "x < 0"
    using round_pos_grid [of "- x" N] n that by simp
  then show ?thesis
    using round_pos_grid [of x N] assms by (auto simp: round_double_def)
qed

text \<open>The rounded sum of two doubles is a double unless it overflows.\<close>

lemma is_double_round:
  assumes "x * 2 ^ 1074 \<in> \<int>" "\<bar>round_double x\<bar> < 2 ^ 1024"
  shows "is_double (round_double x)"
  using assms(2) round_double_idem [of x] round_double_grid [OF assms(1)]
  by (simp add: is_double_def)

lemma val_js_num: "is_double x \<Longrightarrow> dval (js_num x) = x"
  by (simp add: js_num_inverse)

lemma val_js_num_int: "\<bar>n\<bar> \<le> 2 ^ 53 \<Longrightarrow> dval (js_num (of_int n)) = of_int n"
  by (simp add: val_js_num is_double_int)

lemma val_js_num_numeral: "numeral k \<le> (2::int) ^ 53 \<Longrightarrow> dval (js_num (numeral k)) = numeral k"
  using val_js_num_int [of "numeral k"] by simp

lemma val_js_num_0: "dval (js_num 0) = 0"
  using val_js_num_int [of 0] by simp

lemma val_js_num_1: "dval (js_num 1) = 1"
  using val_js_num_int [of 1] by simp

lemma is_double_val: "is_double (dval a)"
  using dval [of a] by simp

lemma double_grid: "dval a * 2 ^ 1074 \<in> \<int>"
proof -
  have "of_int \<lfloor>dval a * 2 ^ 1074\<rfloor> = dval a * 2 ^ 1074"
    using is_double_val [of a] unfolding is_double_def by blast
  then show ?thesis by (metis Ints_of_int)
qed

text \<open>
  The value of a sum is the rounded sum of the values; there is none exactly when the
  rounded sum overflows.
\<close>

lemma js_plus_rounds:
  "map_option dval (js_plus a b) =
     (if \<bar>round_double (dval a + dval b)\<bar> < 2 ^ 1024
      then Some (round_double (dval a + dval b)) else None)"
proof (cases "\<bar>round_double (dval a + dval b)\<bar> < 2 ^ 1024")
  case True
  have "(dval a + dval b) * 2 ^ 1074 = dval a * 2 ^ 1074 + dval b * 2 ^ 1074"
    by (rule distrib_right)
  then have "(dval a + dval b) * 2 ^ 1074 \<in> \<int>"
    using double_grid [of a] double_grid [of b] by (simp only: Ints_add)
  then have "is_double (round_double (dval a + dval b))"
    using True by (rule is_double_round)
  then show ?thesis using True by (simp add: js_plus_def val_js_num)
next
  case False
  then show ?thesis by (simp add: js_plus_def)
qed

text \<open>Adding to zero gives the other number back.\<close>

lemma js_plus_zero: "js_plus (js_num 0) b = Some b"
proof -
  have d: "is_double (dval b)" by (rule is_double_val)
  then have "round_double (dval b) = dval b" "\<bar>dval b\<bar> < 2 ^ 1024"
    by (simp_all add: is_double_def)
  then show ?thesis by (simp add: js_plus_def val_js_num_0 dval_inverse)
qed

text \<open>The sum of two integers is exact when its magnitude is at most \<open>2 ^ 53\<close>.\<close>

lemma js_plus_exact:
  assumes "dval a \<in> \<int>" "dval b \<in> \<int>" "\<bar>dval a + dval b\<bar> \<le> 2 ^ 53"
  shows "js_plus a b = Some (js_num (dval a + dval b))"
    and "map_option dval (js_plus a b) = Some (dval a + dval b)"
proof -
  obtain n where n: "dval a = of_int n" using assms(1) by (rule Ints_cases)
  obtain m where m: "dval b = of_int m" using assms(2) by (rule Ints_cases)
  have s: "dval a + dval b = of_int (n + m)" by (simp add: n m)
  have "\<bar>(of_int (n + m)) :: rat\<bar> \<le> 2 ^ 53" using assms(3) by (simp only: s)
  then have b: "\<bar>n + m\<bar> \<le> 2 ^ 53"
    by (metis of_int_abs of_int_le_iff of_int_numeral of_int_power)
  have r: "round_double (dval a + dval b) = dval a + dval b"
    unfolding s by (rule round_double_int [OF b])
  have d: "is_double (dval a + dval b)"
    unfolding s by (rule is_double_int [OF b])
  then have l: "\<bar>dval a + dval b\<bar> < 2 ^ 1024" by (simp add: is_double_def)
  show 1: "js_plus a b = Some (js_num (dval a + dval b))"
    using r l by (simp add: js_plus_def)
  show "map_option dval (js_plus a b) = Some (dval a + dval b)"
    unfolding 1 using val_js_num [OF d] by simp
qed

lemma or_zero_Some: "or_zero (Some a) = a"
proof (cases "dval a = 0")
  case True
  then have "js_num 0 = a" using dval_inverse [of a] by simp
  then show ?thesis using True by (simp add: or_zero_def)
next
  case False
  then show ?thesis by (simp add: or_zero_def)
qed

lemma or_zero_eq: "or_zero v = (case v of None \<Rightarrow> js_num 0 | Some n \<Rightarrow> n)"
  by (cases v) (simp_all add: or_zero_Some, simp add: or_zero_def)

subsection \<open>The handler\<close>

lemma update_user_earnings_ok:
  assumes "profile_select env = Ok" "earnings_update env = Ok"
      and "single (\<lambda>r. prof_id r = sub_user_id sel) (profiles db) = Some pr"
  shows "update_user_earnings env sel db =
           (Inr (),
            db\<lparr>profiles := update_where (\<lambda>r. prof_id r = sub_user_id sel)
                 (\<lambda>r. r\<lparr>approved_earnings := js_plus (or_zero (approved_earnings pr)) (payment_amount sel),
                         total_earnings := js_plus (or_zero (total_earnings pr)) (payment_amount sel),
                         tasks_completed := js_plus (or_zero (tasks_completed pr)) (js_num 1)\<rparr>)
                 (profiles db)\<rparr>,
            [SelectProfile (sub_user_id sel),
             UpdateProfile (sub_user_id sel)
               (js_plus (or_zero (approved_earnings pr)) (payment_amount sel))
               (js_plus (or_zero (total_earnings pr)) (payment_amount sel))
               (js_plus (or_zero (tasks_completed pr)) (js_num 1))])"
  using assms by (simp add: update_user_earnings_def Let_def)

text \<open>
  An approval that the backend applies: the request that is issued, the table it leaves,
  and the toast.
\<close>

lemma handle_approved_ok:
  assumes "selectedSubmission pg = Some sel"
      and "submission_update env = Ok" "profile_select env = Ok" "earnings_update env = Ok"
      and "single (\<lambda>r. prof_id r = sub_user_id sel) (profiles db) = Some pr"
      and "handleReviewSubmission env approved (pg, db) = (pg', db', evs)"
  shows "profiles db' = update_where (\<lambda>r. prof_id r = sub_user_id sel)
                 (\<lambda>r. r\<lparr>approved_earnings := js_plus (or_zero (approved_earnings pr)) (payment_amount sel),
                         total_earnings := js_plus (or_zero (total_earnings pr)) (payment_amount sel),
                         tasks_completed := js_plus (or_zero (tasks_completed pr)) (js_num 1)\<rparr>)
                 (profiles db)"
    and "UpdateProfile (sub_user_id sel)
               (js_plus (or_zero (approved_earnings pr)) (payment_amount sel))
               (js_plus (or_zero (total_earnings pr)) (payment_amount sel))
               (js_plus (or_zero (tasks_completed pr)) (js_num 1)) \<in> set evs"
    and "Toast ''Success'' ''Submission approved'' \<in> set evs"
proof -
  let ?db1 = "db\<lparr>job_submissions :=
                   update_where (\<lambda>r. sub_id r = sub_id sel)
                     (apply_updateData approved (feedback pg) (now_iso env) (admin_user pg))
                     (job_submissions db)\<rparr>"
  have s: "single (\<lambda>r. prof_id r = sub_user_id sel) (profiles ?db1) = Some pr"
    using assms(5) by simp
  note u = update_user_earnings_ok [OF assms(3) assms(4) s]
  have r: "handleReviewSubmission env approved (pg, db) = (pg', db', evs)" by (rule assms(6))
  show "profiles db' = update_where (\<lambda>r. prof_id r = sub_user_id sel)
                 (\<lambda>r. r\<lparr>approved_earnings := js_plus (or_zero (approved_earnings pr)) (payment_amount sel),
                         total_earnings := js_plus (or_zero (total_earnings pr)) (payment_amount sel),
                         tasks_completed := js_plus (or_zero (tasks_completed pr)) (js_num 1)\<rparr>)
                 (profiles db)"
    using r assms(1,2) u
    by (auto simp: handleReviewSubmission_def review_try_def Let_def)
  show "UpdateProfile (sub_user_id sel)
               (js_plus (or_zero (approved_earnings pr)) (payment_amount sel))
               (js_plus (or_zero (total_earnings pr)) (payment_amount sel))
               (js_plus (or_zero (tasks_completed pr)) (js_num 1)) \<in> set evs"
    using r assms(1,2) u
    by (auto simp: handleReviewSubmission_def review_try_def Let_def)
  show "Toast ''Success'' ''Submission approved'' \<in> set evs"
    using r assms(1,2) u
    by (auto simp: handleReviewSubmission_def review_try_def Let_def)
qed

lemma update_user_earnings_frame:
  "update_user_earnings env sel db = (res, db', evs) \<Longrightarrow>
     job_submissions db' = job_submissions db \<and> transactions db' = transactions db"
  by (auto simp: update_user_earnings_def Let_def split: response.splits option.splits if_splits)

lemma review_try_rejected:
  "review_try env rejected pg db sel = (res, db', evs) \<Longrightarrow>
     profiles db' = profiles db \<and>
     evs = UpdateSubmission (sub_id sel) Rejected (feedback_or_null (feedback pg)) (now_iso env) (admin_user pg)
           # (if submission_update env = Ok then Toast ''Success'' ''Submission rejected'' # fetchData env else [])"
  by (auto simp: review_try_def Let_def split: response.splits)

lemma review_try_submissions:
  "review_try env st pg db sel = (res, db', evs) \<Longrightarrow>
     transactions db' = transactions db \<and>
     job_submissions db' =
       (if submission_update env = Ok
        then update_where (\<lambda>r. sub_id r = sub_id sel)
               (apply_updateData st (feedback pg) (now_iso env) (admin_user pg)) (job_submissions db)
        else job_submissions db)"
  by (auto simp: review_try_def Let_def split: response.splits prod.splits sum.splits if_splits
           dest!: update_user_earnings_frame)

lemma handle_submissions:
  "handleReviewSubmission env st (pg, db) = (pg', db', evs) \<Longrightarrow>
     transactions db' = transactions db \<and>
     job_submissions db' =
       (case selectedSubmission pg of
          None \<Rightarrow> job_submissions db
        | Some sel \<Rightarrow>
           if submission_update env = Ok
           then update_where (\<lambda>r. sub_id r = sub_id sel)
                  (apply_updateData st (feedback pg) (now_iso env) (admin_user pg)) (job_submissions db)
           else job_submissions db)"
  apply (cases "selectedSubmission pg")
   apply (simp add: handleReviewSubmission_def)
  apply (simp add: handleReviewSubmission_def Let_def split: prod.splits sum.splits)
  apply (auto dest!: review_try_submissions)
  done

lemma handle_rejected:
  "handleReviewSubmission env rejected (pg, db) = (pg', db', evs) \<Longrightarrow>
     profiles db' = profiles db \<and> \<not> list_ex writes_profile evs"
  apply (cases "selectedSubmission pg")
   apply (simp add: handleReviewSubmission_def)
  apply (simp add: handleReviewSubmission_def Let_def split: prod.splits sum.splits)
  apply (auto dest!: review_try_rejected simp: fetchData_def split: if_splits)
  done

lemma list_all2_update_where:
  "(\<And>r. r \<in> set rows \<Longrightarrow> Q r r) \<Longrightarrow> (\<And>r. r \<in> set rows \<Longrightarrow> P r \<Longrightarrow> Q r (f r)) \<Longrightarrow>
   list_all2 Q rows (update_where P f rows)"
  by (induction rows) (auto simp: update_where_def)

section \<open>Claims about the review\<close>

lemma tenth_val: "dval tenth = 3602879701896397 / 36028797018963968"
  unfolding tenth_def
  by (rule val_js_num)
     (simp add: is_double_def round_double_def round_pos_def doublings.simps round_half_even_def Let_def)

lemma fifth_val: "dval fifth = 3602879701896397 / 18014398509481984"
  unfolding fifth_def
  by (rule val_js_num)
     (simp add: is_double_def round_double_def round_pos_def doublings.simps round_half_even_def Let_def)

lemma tenth_plus_fifth: "map_option dval (js_plus tenth fifth) = Some (1351079888211149 / 4503599627370496)"
proof -
  have f: "\<lfloor>(10808639105689191::rat) / 2\<rfloor> = 5404319552844595"
    by (simp add: floor_eq_iff)
  have r: "round_double (dval tenth + dval fifth) = 1351079888211149 / 4503599627370496"
    unfolding tenth_val fifth_val
    by (simp add: round_double_def round_pos_def doublings.simps round_half_even_def Let_def f)
  have d: "is_double (1351079888211149 / 4503599627370496)"
    by (simp add: is_double_def round_double_def round_pos_def doublings.simps round_half_even_def Let_def)
  show ?thesis
    using val_js_num [OF d] by (simp add: js_plus_def r)
qed

lemma cents_run:
  "profiles (fst (snd (handleReviewSubmission backend_up approved
      (openReviewDialog cents_submission review_page, cents_db)))) =
   [cents_profile\<lparr>approved_earnings := js_plus tenth fifth, total_earnings := js_plus tenth fifth,
                   tasks_completed := js_plus (js_num 3) (js_num 1)\<rparr>]"
  by (simp add: handleReviewSubmission_def review_try_def update_user_earnings_def Let_def
        openReviewDialog_def cents_submission_def review_page_def cents_db_def backend_up_def
        cents_profile_def update_where_def single_def or_zero_Some apply_updateData_def
        feedback_or_null_def fetchData_def)

text \<open>
  Claim C1 as stated fails for amounts that are not whole numbers. The worker has
  \<open>approved_earnings = 0.1\<close> and the submission pays \<open>0.2\<close>; the update that the approval
  writes is the double \<open>0.30000000000000004\<close> (\<open>1351079888211149 / 2 ^ 52\<close>), which is not
  the sum of the two amounts.
\<close>

theorem approve_adds_rounded_payment_counterexample:
  "map (map_option dval \<circ> approved_earnings)
     (profiles (fst (snd (handleReviewSubmission backend_up approved
        (openReviewDialog cents_submission review_page, cents_db))))) =
     [Some (1351079888211149 / 4503599627370496)] \<and>
   map_option dval (approved_earnings cents_profile) = Some (3602879701896397 / 36028797018963968) \<and>
   dval (payment_amount cents_submission) = 3602879701896397 / 18014398509481984 \<and>
   (3602879701896397 / 36028797018963968 + 3602879701896397 / 18014398509481984 :: rat) \<noteq>
     1351079888211149 / 4503599627370496"
  by (simp add: cents_run tenth_plus_fifth)
     (simp add: cents_profile_def cents_submission_def tenth_val fifth_val)

text \<open>
  Claim C1, amended. The admin approves the selected submission, whose payment amount is
  \<open>p\<close>; the backend applies the three requests; the worker has one profile row, with
  \<open>approved_earnings = a\<close>, \<open>total_earnings = t\<close> and \<open>tasks_completed = c\<close>. Then the
  update that \<^verbatim>\<open>handleReviewSubmission('approved')\<close> issues carries the sums of doubles
  \<open>a + p\<close>, \<open>t + p\<close> and \<open>c + 1\<close>, each the exact sum rounded to the nearest double (or
  null where that overflows), the worker's row holds them afterwards, with its other
  columns as they were, and no other profile row changes. A sum is exact whenever its two numbers are integers and it does not exceed
  \<open>2 ^ 53\<close> in magnitude: at \<open>p = 10\<close>, \<open>a = 50\<close>, \<open>t = 100\<close>, \<open>c = 3\<close> the row shows 60, 110
  and 4, as the instance after the theorem computes.
\<close>

theorem approve_adds_payment:
  assumes "selectedSubmission pg = Some sel"
      and "payment_amount sel = p"
      and "submission_update env = Ok" "profile_select env = Ok" "earnings_update env = Ok"
      and "filter (\<lambda>r. prof_id r = sub_user_id sel) (profiles db) = [pr]"
      and "approved_earnings pr = Some a" "total_earnings pr = Some t" "tasks_completed pr = Some c"
      and "handleReviewSubmission env approved (pg, db) = (pg', db', evs)"
  shows "filter (\<lambda>r. prof_id r = sub_user_id sel) (profiles db') =
           [pr\<lparr>approved_earnings := js_plus a p, total_earnings := js_plus t p,
               tasks_completed := js_plus c (js_num 1)\<rparr>] \<and>
         filter (\<lambda>r. prof_id r \<noteq> sub_user_id sel) (profiles db') =
           filter (\<lambda>r. prof_id r \<noteq> sub_user_id sel) (profiles db) \<and>
         UpdateProfile (sub_user_id sel) (js_plus a p) (js_plus t p) (js_plus c (js_num 1)) \<in> set evs \<and>
         map_option dval (js_plus a p) =
           (if \<bar>round_double (dval a + dval p)\<bar> < 2 ^ 1024
            then Some (round_double (dval a + dval p)) else None) \<and>
         map_option dval (js_plus t p) =
           (if \<bar>round_double (dval t + dval p)\<bar> < 2 ^ 1024
            then Some (round_double (dval t + dval p)) else None) \<and>
         map_option dval (js_plus c (js_num 1)) =
           (if \<bar>round_double (dval c + 1)\<bar> < 2 ^ 1024
            then Some (round_double (dval c + 1)) else None) \<and>
         (dval a \<in> \<int> \<and> dval p \<in> \<int> \<and> \<bar>dval a + dval p\<bar> \<le> 2 ^ 53 \<longrightarrow>
            map_option dval (js_plus a p) = Some (dval a + dval p)) \<and>
         (dval t \<in> \<int> \<and> dval p \<in> \<int> \<and> \<bar>dval t + dval p\<bar> \<le> 2 ^ 53 \<longrightarrow>
            map_option dval (js_plus t p) = Some (dval t + dval p)) \<and>
         (dval c \<in> \<int> \<and> \<bar>dval c + 1\<bar> \<le> 2 ^ 53 \<longrightarrow>
            map_option dval (js_plus c (js_num 1)) = Some (dval c + 1))"
proof -
  have s: "single (\<lambda>r. prof_id r = sub_user_id sel) (profiles db) = Some pr"
    using assms(6) by (rule single_filter)
  note h = handle_approved_ok [OF assms(1) assms(3) assms(4) assms(5) s assms(10)]
  have z: "or_zero (approved_earnings pr) = a" "or_zero (total_earnings pr) = t"
          "or_zero (tasks_completed pr) = c"
    using assms(7-9) by (simp_all add: or_zero_Some)
  have 1: "filter (\<lambda>r. prof_id r = sub_user_id sel) (profiles db') =
           [pr\<lparr>approved_earnings := js_plus a p, total_earnings := js_plus t p,
               tasks_completed := js_plus c (js_num 1)\<rparr>]"
    unfolding h(1) using assms(2,6) z by (simp add: filter_update_where)
  have 2: "filter (\<lambda>r. prof_id r \<noteq> sub_user_id sel) (profiles db') =
           filter (\<lambda>r. prof_id r \<noteq> sub_user_id sel) (profiles db)"
    unfolding h(1) by (simp add: filter_not_update_where)
  have 3: "UpdateProfile (sub_user_id sel) (js_plus a p) (js_plus t p) (js_plus c (js_num 1)) \<in> set evs"
    using h(2) assms(2) z by simp
  have 4: "dval a \<in> \<int> \<and> dval p \<in> \<int> \<and> \<bar>dval a + dval p\<bar> \<le> 2 ^ 53 \<longrightarrow>
            map_option dval (js_plus a p) = Some (dval a + dval p)"
    using js_plus_exact(2) [of a p] by blast
  have 5: "dval t \<in> \<int> \<and> dval p \<in> \<int> \<and> \<bar>dval t + dval p\<bar> \<le> 2 ^ 53 \<longrightarrow>
            map_option dval (js_plus t p) = Some (dval t + dval p)"
    using js_plus_exact(2) [of t p] by blast
  have 6: "dval c \<in> \<int> \<and> \<bar>dval c + 1\<bar> \<le> 2 ^ 53 \<longrightarrow>
            map_option dval (js_plus c (js_num 1)) = Some (dval c + 1)"
    using js_plus_exact(2) [of c "js_num 1"] by (simp add: val_js_num_1)
  have 7: "map_option dval (js_plus a p) =
           (if \<bar>round_double (dval a + dval p)\<bar> < 2 ^ 1024
            then Some (round_double (dval a + dval p)) else None)"
    by (rule js_plus_rounds)
  have 8: "map_option dval (js_plus t p) =
           (if \<bar>round_double (dval t + dval p)\<bar> < 2 ^ 1024
            then Some (round_double (dval t + dval p)) else None)"
    by (rule js_plus_rounds)
  have 9: "map_option dval (js_plus c (js_num 1)) =
           (if \<bar>round_double (dval c + 1)\<bar> < 2 ^ 1024
            then Some (round_double (dval c + 1)) else None)"
    using js_plus_rounds [of c "js_num 1"] by (simp only: val_js_num_1)
  from 1 2 3 4 5 6 7 8 9 show ?thesis by blast
qed

text \<open>The instance of the specification: 50, 100 and 3 with a payment of 10 give 60, 110 and 4.\<close>

theorem approve_adds_payment_witness:
  "map (\<lambda>r. (map_option dval (approved_earnings r), map_option dval (total_earnings r),
             map_option dval (tasks_completed r)))
     (filter (\<lambda>r. prof_id r = ''worker-1'')
       (profiles (fst (snd (handleReviewSubmission backend_up approved
          (openReviewDialog pending_submission review_page, review_db)))))) =
   [(Some 60, Some 110, Some 4)]"
proof -
  have v: "dval (js_num 50) = 50" "dval (js_num 100) = 100" "dval (js_num 3) = 3"
          "dval (js_num 10) = 10"
    by (simp_all add: val_js_num_numeral)
  have h1: "selectedSubmission (openReviewDialog pending_submission review_page) =
              Some pending_submission"
    by (simp add: openReviewDialog_def)
  have p: "payment_amount pending_submission = js_num 10"
    by (simp add: pending_submission_def)
  have h2: "submission_update backend_up = Ok" "profile_select backend_up = Ok"
           "earnings_update backend_up = Ok"
    by (simp_all add: backend_up_def)
  have u: "sub_user_id pending_submission = ''worker-1''"
    by (simp add: pending_submission_def)
  have h5: "filter (\<lambda>r. prof_id r = sub_user_id pending_submission) (profiles review_db) =
              [worker_profile]"
    unfolding u by (simp add: review_db_def worker_profile_def new_worker_profile_def)
  have w: "approved_earnings worker_profile = Some (js_num 50)"
          "total_earnings worker_profile = Some (js_num 100)"
          "tasks_completed worker_profile = Some (js_num 3)"
    by (simp_all add: worker_profile_def)
  have h6: "handleReviewSubmission backend_up approved
              (openReviewDialog pending_submission review_page, review_db) =
            (fst (handleReviewSubmission backend_up approved
                   (openReviewDialog pending_submission review_page, review_db)),
             fst (snd (handleReviewSubmission backend_up approved
                   (openReviewDialog pending_submission review_page, review_db))),
             snd (snd (handleReviewSubmission backend_up approved
                   (openReviewDialog pending_submission review_page, review_db))))"
    by simp
  note t = approve_adds_payment [OF h1 p h2 h5 w h6]
  have r: "filter (\<lambda>r. prof_id r = ''worker-1'')
             (profiles (fst (snd (handleReviewSubmission backend_up approved
                (openReviewDialog pending_submission review_page, review_db))))) =
           [worker_profile\<lparr>approved_earnings := js_plus (js_num 50) (js_num 10),
              total_earnings := js_plus (js_num 100) (js_num 10),
              tasks_completed := js_plus (js_num 3) (js_num 1)\<rparr>]"
    using t [THEN conjunct1] unfolding u .
  have i: "dval (js_num 50) \<in> \<int>" "dval (js_num 100) \<in> \<int>" "dval (js_num 3) \<in> \<int>"
          "dval (js_num 10) \<in> \<int>"
    unfolding v by simp_all
  have s1: "map_option dval (js_plus (js_num 50) (js_num 10)) = Some 60"
    using t [THEN conjunct2, THEN conjunct2, THEN conjunct2, THEN conjunct2, THEN conjunct2,
             THEN conjunct2, THEN conjunct1] i
    by (simp add: v)
  have s2: "map_option dval (js_plus (js_num 100) (js_num 10)) = Some 110"
    using t [THEN conjunct2, THEN conjunct2, THEN conjunct2, THEN conjunct2, THEN conjunct2,
             THEN conjunct2, THEN conjunct2, THEN conjunct1] i
    by (simp add: v)
  have s3: "map_option dval (js_plus (js_num 3) (js_num 1)) = Some 4"
    using t [THEN conjunct2, THEN conjunct2, THEN conjunct2, THEN conjunct2, THEN conjunct2,
             THEN conjunct2, THEN conjunct2, THEN conjunct2] i
    by (simp add: v)
  show ?thesis unfolding r by (simp add: s1 s2 s3)
qed

text \<open>
  Claim C10. When the approval goes through, each of \<open>approved_earnings\<close>,
  \<open>total_earnings\<close> and \<open>tasks_completed\<close> that is null in the worker's row counts as 0:
  the row afterwards holds the sum of the old value (0 for null) and the payment amount,
  and the sum with 1 for the counter. With all three null it shows the payment amount,
  the payment amount and 1; no column is written as null and the handler reports success.
\<close>

theorem approve_missing_fields_as_zero:
  assumes "selectedSubmission pg = Some sel"
      and "submission_update env = Ok" "profile_select env = Ok" "earnings_update env = Ok"
      and "filter (\<lambda>r. prof_id r = sub_user_id sel) (profiles db) = [pr]"
      and "handleReviewSubmission env approved (pg, db) = (pg', db', evs)"
  shows "filter (\<lambda>r. prof_id r = sub_user_id sel) (profiles db') =
           [pr\<lparr>approved_earnings :=
                  js_plus (case approved_earnings pr of None \<Rightarrow> js_num 0 | Some a \<Rightarrow> a) (payment_amount sel),
               total_earnings :=
                  js_plus (case total_earnings pr of None \<Rightarrow> js_num 0 | Some t \<Rightarrow> t) (payment_amount sel),
               tasks_completed :=
                  js_plus (case tasks_completed pr of None \<Rightarrow> js_num 0 | Some c \<Rightarrow> c) (js_num 1)\<rparr>] \<and>
         (approved_earnings pr = None \<and> total_earnings pr = None \<and> tasks_completed pr = None \<longrightarrow>
            filter (\<lambda>r. prof_id r = sub_user_id sel) (profiles db') =
              [pr\<lparr>approved_earnings := Some (payment_amount sel),
                  total_earnings := Some (payment_amount sel),
                  tasks_completed := Some (js_num 1)\<rparr>]) \<and>
         Toast ''Success'' ''Submission approved'' \<in> set evs"
proof -
  have s: "single (\<lambda>r. prof_id r = sub_user_id sel) (profiles db) = Some pr"
    using assms(5) by (rule single_filter)
  note h = handle_approved_ok [OF assms(1) assms(2) assms(3) assms(4) s assms(6)]
  have 1: "filter (\<lambda>r. prof_id r = sub_user_id sel) (profiles db') =
           [pr\<lparr>approved_earnings :=
                  js_plus (case approved_earnings pr of None \<Rightarrow> js_num 0 | Some a \<Rightarrow> a) (payment_amount sel),
               total_earnings :=
                  js_plus (case total_earnings pr of None \<Rightarrow> js_num 0 | Some t \<Rightarrow> t) (payment_amount sel),
               tasks_completed :=
                  js_plus (case tasks_completed pr of None \<Rightarrow> js_num 0 | Some c \<Rightarrow> c) (js_num 1)\<rparr>]"
    unfolding h(1) using assms(5) by (simp add: filter_update_where or_zero_eq)
  have 2: "approved_earnings pr = None \<and> total_earnings pr = None \<and> tasks_completed pr = None \<longrightarrow>
            filter (\<lambda>r. prof_id r = sub_user_id sel) (profiles db') =
              [pr\<lparr>approved_earnings := Some (payment_amount sel),
                  total_earnings := Some (payment_amount sel),
                  tasks_completed := Some (js_num 1)\<rparr>]"
    using 1 by (simp add: js_plus_zero)
  from 1 2 h(3) show ?thesis by blast
qed

text \<open>A worker whose three columns are null, paid 7 for a first task.\<close>

theorem approve_missing_fields_as_zero_witness:
  "filter (\<lambda>r. prof_id r = ''worker-2'')
     (profiles (fst (snd (handleReviewSubmission backend_up approved
        (openReviewDialog new_worker_submission review_page, review_db))))) =
   [new_worker_profile\<lparr>approved_earnings := Some (js_num 7), total_earnings := Some (js_num 7),
      tasks_completed := Some (js_num 1)\<rparr>]"
proof -
  have h1: "selectedSubmission (openReviewDialog new_worker_submission review_page) =
              Some new_worker_submission"
    by (simp add: openReviewDialog_def)
  have h2: "submission_update backend_up = Ok" "profile_select backend_up = Ok"
           "earnings_update backend_up = Ok"
    by (simp_all add: backend_up_def)
  have u: "sub_user_id new_worker_submission = ''worker-2''"
    by (simp add: new_worker_submission_def)
  have h5: "filter (\<lambda>r. prof_id r = sub_user_id new_worker_submission) (profiles review_db) =
              [new_worker_profile]"
    unfolding u by (simp add: review_db_def worker_profile_def new_worker_profile_def)
  have n: "approved_earnings new_worker_profile = None \<and> total_earnings new_worker_profile = None \<and>
           tasks_completed new_worker_profile = None"
    by (simp add: new_worker_profile_def)
  have p: "payment_amount new_worker_submission = js_num 7"
    by (simp add: new_worker_submission_def)
  have h6: "handleReviewSubmission backend_up approved
              (openReviewDialog new_worker_submission review_page, review_db) =
            (fst (handleReviewSubmission backend_up approved
                   (openReviewDialog new_worker_submission review_page, review_db)),
             fst (snd (handleReviewSubmission backend_up approved
                   (openReviewDialog new_worker_submission review_page, review_db))),
             snd (snd (handleReviewSubmission backend_up approved
                   (openReviewDialog new_worker_submission review_page, review_db))))"
    by simp
  note t = approve_missing_fields_as_zero [OF h1 h2 h5 h6,
      THEN conjunct2, THEN conjunct1, rule_format, OF n]
  show ?thesis using t unfolding u p by simp
qed

text \<open>
  Claim C2. Whatever the page state, the tables and the answers of the backend,
  \<^verbatim>\<open>handleReviewSubmission('rejected')\<close> leaves the \<open>profiles\<close> table as it was (so the
  earnings columns and \<open>tasks_completed\<close> of every profile) and issues no profile update;
  the transactions are untouched; each submission row differs from its old version at
  most in \<open>status\<close>, \<open>admin_feedback\<close>, \<open>reviewed_at\<close> and \<open>reviewed_by\<close>, and a row that
  differs at all has the id of the selected submission.
\<close>

theorem reject_leaves_profiles:
  assumes "handleReviewSubmission env rejected (pg, db) = (pg', db', evs)"
  shows "profiles db' = profiles db \<and>
         \<not> list_ex writes_profile evs \<and>
         transactions db' = transactions db \<and>
         list_all2 only_review_columns_differ (job_submissions db) (job_submissions db') \<and>
         list_all2 (\<lambda>r r'. r' = r \<or> selectedSubmission pg \<noteq> None \<and>
                      Some (sub_id r) = map_option sub_id (selectedSubmission pg))
           (job_submissions db) (job_submissions db')"
proof -
  note h = handle_rejected [OF assms]
  note g = handle_submissions [OF assms]
  have 1: "list_all2 only_review_columns_differ (job_submissions db) (job_submissions db')"
    using g
    by (auto simp: only_review_columns_differ_def apply_updateData_def list_all2_same
             intro!: list_all2_update_where split: option.splits)
  have 2: "list_all2 (\<lambda>r r'. r' = r \<or> selectedSubmission pg \<noteq> None \<and>
                      Some (sub_id r) = map_option sub_id (selectedSubmission pg))
           (job_submissions db) (job_submissions db')"
    using g
    by (auto simp: list_all2_same intro!: list_all2_update_where split: option.splits)
  from h g 1 2 show ?thesis by blast
qed

text \<open>Rejecting the pending submission of the concrete review.\<close>

theorem reject_leaves_profiles_witness:
  "profiles (fst (snd (handleReviewSubmission backend_up rejected
        (openReviewDialog pending_submission review_page, review_db)))) = profiles review_db \<and>
   map sub_status (job_submissions (fst (snd (handleReviewSubmission backend_up rejected
        (openReviewDialog pending_submission review_page, review_db))))) = [Rejected, Pending, Approved]"
  using reject_leaves_profiles [of backend_up "openReviewDialog pending_submission review_page" review_db
      "fst (handleReviewSubmission backend_up rejected
        (openReviewDialog pending_submission review_page, review_db))"
      "fst (snd (handleReviewSubmission backend_up rejected
        (openReviewDialog pending_submission review_page, review_db)))"
      "snd (snd (handleReviewSubmission backend_up rejected
        (openReviewDialog pending_submission review_page, review_db)))"]
  by (simp add: handleReviewSubmission_def review_try_def update_user_earnings_def Let_def
        openReviewDialog_def pending_submission_def review_page_def review_db_def backend_up_def
        worker_profile_def new_worker_profile_def new_worker_submission_def approved_submission_def
        update_where_def single_def or_zero_def apply_updateData_def feedback_or_null_def fetchData_def)

text \<open>
  Claim C3 as stated fails. The list of all submissions offers the button
  ``Update Review'' on a submission that is already approved; it opens the same dialog,
  and \<^verbatim>\<open>handleReviewSubmission('rejected')\<close> writes the new status without looking at the
  current one: the approved submission \<open>sub-3\<close> ends rejected.
\<close>

theorem reviewed_status_reverses_counterexample:
  "sub_status approved_submission = Approved \<and>
   review_button_label approved_submission = ''Update Review'' \<and>
   approved_submission \<in> set (job_submissions review_db) \<and>
   map (\<lambda>r. (sub_id r, sub_status r))
     (job_submissions (fst (snd (handleReviewSubmission backend_up rejected
        (openReviewDialog approved_submission review_page, review_db))))) =
   [(''sub-1'', Pending), (''sub-2'', Pending), (''sub-3'', Rejected)]"
  by (simp add: handleReviewSubmission_def review_try_def update_user_earnings_def Let_def
        openReviewDialog_def pending_submission_def review_page_def review_db_def backend_up_def
        worker_profile_def new_worker_profile_def new_worker_submission_def approved_submission_def
        update_where_def single_def or_zero_def apply_updateData_def feedback_or_null_def fetchData_def
        review_button_label_def)

text \<open>
  Claim C3, amended. A review keeps every row and its id, and a row's status either stays
  or becomes the verdict of the review, \<open>approved\<close> or \<open>rejected\<close>: no row returns to
  \<open>pending\<close>. When the backend applies the update, every row with the selected id carries
  the verdict, whatever its status was before.
\<close>

theorem review_never_back_to_pending:
  assumes "handleReviewSubmission env st (pg, db) = (pg', db', evs)"
  shows "list_all2 (\<lambda>r r'. sub_id r' = sub_id r \<and>
                      (sub_status r' = sub_status r \<or> sub_status r' = status_of st) \<and>
                      (sub_status r' = Pending \<longrightarrow> sub_status r = Pending))
           (job_submissions db) (job_submissions db') \<and>
         (\<forall>sel. selectedSubmission pg = Some sel \<and> submission_update env = Ok \<longrightarrow>
            (\<forall>r' \<in> set (job_submissions db'). sub_id r' = sub_id sel \<longrightarrow> sub_status r' = status_of st))"
proof -
  note g = handle_submissions [OF assms]
  have p: "status_of st \<noteq> Pending" by (cases st) simp_all
  have 1: "list_all2 (\<lambda>r r'. sub_id r' = sub_id r \<and>
                      (sub_status r' = sub_status r \<or> sub_status r' = status_of st) \<and>
                      (sub_status r' = Pending \<longrightarrow> sub_status r = Pending))
           (job_submissions db) (job_submissions db')"
    using g p
    by (auto simp: apply_updateData_def list_all2_same
             intro!: list_all2_update_where split: option.splits)
  have 2: "\<forall>sel. selectedSubmission pg = Some sel \<and> submission_update env = Ok \<longrightarrow>
            (\<forall>r' \<in> set (job_submissions db'). sub_id r' = sub_id sel \<longrightarrow> sub_status r' = status_of st)"
    using g by (auto simp: update_where_def apply_updateData_def split: if_splits)
  from 1 2 show ?thesis by blast
qed

text \<open>Approving again the submission that is already approved.\<close>

theorem review_never_back_to_pending_witness:
  "map sub_status (job_submissions (fst (snd (handleReviewSubmission backend_up approved
        (openReviewDialog approved_submission review_page, review_db))))) = [Pending, Pending, Approved] \<and>
   list_all2 (\<lambda>r r'. sub_id r' = sub_id r \<and>
                      (sub_status r' = sub_status r \<or> sub_status r' = status_of approved) \<and>
                      (sub_status r' = Pending \<longrightarrow> sub_status r = Pending))
     (job_submissions review_db)
     (job_submissions (fst (snd (handleReviewSubmission backend_up approved
        (openReviewDialog approved_submission review_page, review_db)))))"
  using review_never_back_to_pending [of backend_up approved "openReviewDialog approved_submission review_page" review_db
      "fst (handleReviewSubmission backend_up approved
        (openReviewDialog approved_submission review_page, review_db))"
      "fst (snd (handleReviewSubmission backend_up approved
        (openReviewDialog approved_submission review_page, review_db)))"
      "snd (snd (handleReviewSubmission backend_up approved
        (openReviewDialog approved_submission review_page, review_db)))"]
  by (simp add: handleReviewSubmission_def review_try_def update_user_earnings_def Let_def
        openReviewDialog_def pending_submission_def review_page_def review_db_def backend_up_def
        worker_profile_def new_worker_profile_def new_worker_submission_def approved_submission_def
        update_where_def single_def or_zero_def apply_updateData_def feedback_or_null_def fetchData_def)

section \<open>Properties of the checkout\<close>

lemma create_transaction_events:
  "create_transaction env uid pl db = (db', evs) \<Longrightarrow>
     filter is_transaction_insert evs = [InsertTransaction (transaction_record env uid pl)] \<and>
     filter is_membership_update evs = [] \<and>
     filter is_warning evs =
       (case transaction_insert env of Ok \<Rightarrow> []
        | Error m \<Rightarrow> [CoWarn ''Transaction record not created:'']
        | Rejects m \<Rightarrow> [CoWarn ''Database operation failed:'']) \<and>
     transactions db' = (if transaction_insert env = Ok
                         then transactions db @ [transaction_record env uid pl] else transactions db) \<and>
     profiles db' = profiles db \<and> job_submissions db' = job_submissions db"
  by (auto simp: create_transaction_def Let_def split: response.splits)

lemma update_membership_events:
  "update_membership env uid pl db = (db', evs) \<Longrightarrow>
     filter is_transaction_insert evs = [] \<and>
     filter is_membership_update evs =
       [UpdateMembership uid (plan_tier pl) (setMonth (new_date env) (getMonth (new_date env) + 1)) 0
          ''pending_payment''] \<and>
     filter is_warning evs = (if membership_update env = Ok then [] else [CoWarn ''Profile update failed:'']) \<and>
     transactions db' = transactions db \<and> job_submissions db' = job_submissions db \<and>
     profiles db' =
       (if membership_update env = Ok
        then update_where (\<lambda>r. prof_id r = uid)
               (\<lambda>r. r\<lparr>membership_tier := plan_tier pl,
                       membership_expires_at := Some (setMonth (new_date env) (getMonth (new_date env) + 1)),
                       daily_tasks_used := 0,
                       membership_status := Some ''pending_payment''\<rparr>)
               (profiles db)
        else profiles db)"
  by (auto simp: update_membership_def Let_def split: response.splits)

lemma handlePayNow_unfold:
  assumes "co_user pg = Some uid" "currentPlan pg = Some pl"
  shows "handlePayNow env (pg, db) =
     (pg\<lparr>isProcessing := False, co_error := None, paymentInitiated := True\<rparr>,
      fst (update_membership env uid pl (fst (create_transaction env uid pl db))),
      snd (create_transaction env uid pl db) @
      snd (update_membership env uid pl (fst (create_transaction env uid pl db))) @
      [CoToast ''Payment Instructions''
         ''Please send USDT to the address shown. Your membership will be activated after verification.'',
       NavigateAfter 10000 ''/dashboard''])"
  using assms by (simp add: handlePayNow_def Let_def split: prod.splits)

lemma setMonth_next_month:
  assumes "month t < 12"
      and "day t \<le> days_in_month (fst (next_calendar_month t)) (snd (next_calendar_month t))"
  shows "one_calendar_month_ahead t (setMonth t (getMonth t + 1))"
proof (cases "month t = 11")
  case True
  then have "MakeDay (year t) (month t + 1) (day t) = (year t + 1, 0, day t)"
    using assms by (subst MakeDay.simps) (simp add: Let_def next_calendar_month_def)
  then show ?thesis using True
    by (simp add: one_calendar_month_ahead_def setMonth_def getMonth_def next_calendar_month_def)
next
  case False
  then have "(month t + 1) div 12 = 0" "(month t + 1) mod 12 = month t + 1"
    using assms(1) by simp_all
  then have "MakeDay (year t) (month t + 1) (day t) = (year t, month t + 1, day t)"
    using assms False by (subst MakeDay.simps) (simp add: Let_def next_calendar_month_def)
  then show ?thesis using False
    by (simp add: one_calendar_month_ahead_def setMonth_def getMonth_def next_calendar_month_def)
qed

text \<open>
  What \<^verbatim>\<open>handlePayNow\<close> requests for a signed-in user and a plan: one insert, of the
  pending debit with its reference id, and one profile update, whose expiry is
  \<open>setMonth\<close> of the current date.
\<close>

lemma pay_now_requests:
  assumes "co_user pg = Some uid" "currentPlan pg = Some pl"
      and "handlePayNow env (pg, db) = (pg', db', evs)"
  shows "filter is_transaction_insert evs =
           [InsertTransaction
              \<lparr>tx_user_id = uid, tx_type = ''subscription'', amount = - price pl,
               tx_status = ''pending'',
               description = plan_name pl @ '' Membership - USDT Payment Pending'',
               reference_id = ''usdt_'' @ string_of_nat (date_now env) @ ''_'' @ uid\<rparr>]"
    and "filter is_membership_update evs =
           [UpdateMembership uid (plan_tier pl) (setMonth (new_date env) (getMonth (new_date env) + 1)) 0
              ''pending_payment'']"
proof -
  obtain db1 ev1 where c: "create_transaction env uid pl db = (db1, ev1)" by fastforce
  obtain db2 ev2 where u: "update_membership env uid pl db1 = (db2, ev2)" by fastforce
  note ce = create_transaction_events [OF c]
  note ue = update_membership_events [OF u]
  have e: "evs = ev1 @ ev2 @
      [CoToast ''Payment Instructions''
         ''Please send USDT to the address shown. Your membership will be activated after verification.'',
       NavigateAfter 10000 ''/dashboard'']"
    using assms(3) c u unfolding handlePayNow_unfold [OF assms(1,2)] by simp_all
  show "filter is_transaction_insert evs =
           [InsertTransaction
              \<lparr>tx_user_id = uid, tx_type = ''subscription'', amount = - price pl,
               tx_status = ''pending'',
               description = plan_name pl @ '' Membership - USDT Payment Pending'',
               reference_id = ''usdt_'' @ string_of_nat (date_now env) @ ''_'' @ uid\<rparr>]"
    using ce ue by (simp add: e transaction_record_def)
  show "filter is_membership_update evs =
           [UpdateMembership uid (plan_tier pl) (setMonth (new_date env) (getMonth (new_date env) + 1)) 0
              ''pending_payment'']"
    using ce ue by (simp add: e)
qed

text \<open>
  Claim C5 at a checkout on 31 January 2026 by user \<open>worker-1\<close> for the plan \<open>pro\<close>.
  The handler issues one insert, of the debit \<open>-25\<close> with status \<open>pending\<close> and the
  reference id made of the timestamp and the user id, and one profile update with the
  tier, \<open>daily_tasks_used = 0\<close> and \<open>membership_status = pending_payment\<close>, as the claim
  says; but the expiry it writes is 3 March 2026 (\<open>month = 2\<close>): \<^verbatim>\<open>setMonth\<close> asks for
  31 February, which runs over into March, past the next calendar month.
\<close>

theorem expiry_runs_past_next_month:
  "snd (snd (handlePayNow checkout_january (checkout_page0, checkout_db))) =
     [InsertTransaction
        \<lparr>tx_user_id = ''worker-1'', tx_type = ''subscription'', amount = - 25,
         tx_status = ''pending'', description = ''Pro Membership - USDT Payment Pending'',
         reference_id = ''usdt_1769860800000_worker-1''\<rparr>,
      UpdateMembership ''worker-1'' TierPro
        \<lparr>year = 2026, month = 2, day = 3, ms_of_day = 43200000\<rparr> 0 ''pending_payment'',
      RefreshProfile,
      CoToast ''Payment Instructions''
        ''Please send USDT to the address shown. Your membership will be activated after verification.'',
      NavigateAfter 10000 ''/dashboard''] \<and>
   new_date checkout_january = \<lparr>year = 2026, month = 0, day = 31, ms_of_day = 43200000\<rparr> \<and>
   next_calendar_month (new_date checkout_january) = (2026, 1) \<and>
   \<not> one_calendar_month_ahead (new_date checkout_january)
       \<lparr>year = 2026, month = 2, day = 3, ms_of_day = 43200000\<rparr>"
  by (simp add: handlePayNow_def create_transaction_def update_membership_def transaction_record_def
        checkout_january_def checkout_page0_def checkout_db_def planDetails_def last_of_january_def
        setMonth_def getMonth_def MakeDay.simps days_in_month_def is_leap_year_def Let_def
        string_of_nat.simps digit_char_def next_calendar_month_def one_calendar_month_ahead_def)

text \<open>
  Claim C6. For a signed-in user and a plan, whatever the backend answers to the insert
  and to the update (applied, an error result, or a rejected promise), the handler issues
  exactly one transaction insert and exactly one profile update, logs one warning for
  each of the two that failed, and still shows the toast with the payment instructions
  and the payment screen (\<open>paymentInitiated\<close>), with no error set on the page.
\<close>

theorem checkout_attempts_both:
  assumes "co_user pg = Some uid" "currentPlan pg = Some pl"
      and "handlePayNow env (pg, db) = (pg', db', evs)"
  shows "filter is_transaction_insert evs = [InsertTransaction (transaction_record env uid pl)] \<and>
         length (filter is_membership_update evs) = 1 \<and>
         length (filter is_warning evs) =
           (if transaction_insert env = Ok then 0 else 1) + (if membership_update env = Ok then 0 else 1) \<and>
         CoToast ''Payment Instructions''
           ''Please send USDT to the address shown. Your membership will be activated after verification.''
           \<in> set evs \<and>
         paymentInitiated pg' \<and> co_error pg' = None \<and> \<not> isProcessing pg'"
proof -
  obtain db1 ev1 where c: "create_transaction env uid pl db = (db1, ev1)" by fastforce
  obtain db2 ev2 where u: "update_membership env uid pl db1 = (db2, ev2)" by fastforce
  note ce = create_transaction_events [OF c]
  note ue = update_membership_events [OF u]
  have e: "evs = ev1 @ ev2 @
      [CoToast ''Payment Instructions''
         ''Please send USDT to the address shown. Your membership will be activated after verification.'',
       NavigateAfter 10000 ''/dashboard'']"
    and p: "pg' = pg\<lparr>isProcessing := False, co_error := None, paymentInitiated := True\<rparr>"
    using assms(3) c u unfolding handlePayNow_unfold [OF assms(1,2)] by simp_all
  have 1: "filter is_transaction_insert evs = [InsertTransaction (transaction_record env uid pl)]"
    using ce ue by (simp add: e)
  have 2: "length (filter is_membership_update evs) = 1"
    using ce ue by (simp add: e)
  have 3: "length (filter is_warning evs) =
           (if transaction_insert env = Ok then 0 else 1) + (if membership_update env = Ok then 0 else 1)"
    using ce ue by (simp add: e split: response.splits)
  have 4: "CoToast ''Payment Instructions''
           ''Please send USDT to the address shown. Your membership will be activated after verification.''
           \<in> set evs" by (simp add: e)
  from 1 2 3 4 p show ?thesis by simp
qed

text \<open>A checkout where the insert is rejected and the update returns an error.\<close>

theorem checkout_attempts_both_witness:
  "filter is_transaction_insert (snd (snd (handlePayNow checkout_backend_down (checkout_page0, checkout_db)))) =
     [InsertTransaction
        \<lparr>tx_user_id = ''worker-1'', tx_type = ''subscription'', amount = - 25,
         tx_status = ''pending'', description = ''Pro Membership - USDT Payment Pending'',
         reference_id = ''usdt_1776245400000_worker-1''\<rparr>] \<and>
   length (filter is_membership_update
     (snd (snd (handlePayNow checkout_backend_down (checkout_page0, checkout_db))))) = 1 \<and>
   length (filter is_warning
     (snd (snd (handlePayNow checkout_backend_down (checkout_page0, checkout_db))))) = 2 \<and>
   paymentInitiated (fst (handlePayNow checkout_backend_down (checkout_page0, checkout_db))) \<and>
   fst (snd (handlePayNow checkout_backend_down (checkout_page0, checkout_db))) = checkout_db"
  using checkout_attempts_both [of checkout_page0 "''worker-1''"
      "\<lparr>plan_name = ''Pro'', price = 25, plan_tier = TierPro\<rparr>" checkout_backend_down checkout_db
      "fst (handlePayNow checkout_backend_down (checkout_page0, checkout_db))"
      "fst (snd (handlePayNow checkout_backend_down (checkout_page0, checkout_db)))"
      "snd (snd (handlePayNow checkout_backend_down (checkout_page0, checkout_db)))"]
  by (simp add: handlePayNow_def create_transaction_def update_membership_def transaction_record_def
        checkout_backend_down_def checkout_page0_def checkout_db_def planDetails_def mid_april_def
        setMonth_def getMonth_def MakeDay.simps days_in_month_def is_leap_year_def Let_def
        string_of_nat.simps digit_char_def)

section \<open>Properties of the sign-up form\<close>

lemma dot_star_then_ex: "dot_star_then X cs \<Longrightarrow> list_ex X cs"
  by (induction cs) auto

lemma password_regex_classes:
  "password_regex pw \<Longrightarrow> list_ex is_lower pw \<and> list_ex is_upper pw \<and> list_ex is_digit pw"
  by (simp add: password_regex_def dot_star_then_ex)

lemma weak_password_issue:
  assumes "\<not> spec_password_ok pw"
  shows "length pw < 6 \<or> \<not> password_regex pw"
  using assms password_regex_classes [of pw] by (auto simp: spec_password_ok_def)

lemma fold_fieldErrors_keeps:
  "fe k \<noteq> None \<Longrightarrow>
   fold (\<lambda>(path, msg) fe. if path \<noteq> [] then fe(path \<mapsto> msg) else fe) issues fe k \<noteq> None"
  by (induction issues arbitrary: fe) (auto split: prod.splits)

lemma fold_fieldErrors_mem:
  "(k, m) \<in> set issues \<Longrightarrow> k \<noteq> [] \<Longrightarrow>
   fold (\<lambda>(path, msg) fe. if path \<noteq> [] then fe(path \<mapsto> msg) else fe) issues fe k \<noteq> None"
proof (induction issues arbitrary: fe)
  case Nil
  then show ?case by simp
next
  case (Cons i issues)
  show ?case
  proof (cases "i = (k, m)")
    case True
    then show ?thesis using Cons.prems(2) by (simp add: fold_fieldErrors_keeps)
  next
    case False
    then have "(k, m) \<in> set issues" using Cons.prems(1) by simp
    then show ?thesis using Cons.IH Cons.prems(2) by simp
  qed
qed

lemma fieldErrors_mem: "(k, m) \<in> set issues \<Longrightarrow> k \<noteq> [] \<Longrightarrow> fieldErrors issues k \<noteq> None"
  unfolding fieldErrors_def by (rule fold_fieldErrors_mem)

lemma password_issues_nonempty:
  assumes "length pw < 6 \<or> \<not> password_regex pw"
  shows "\<exists>m. (''password'', m) \<in> set (password_issues pw)"
proof (cases "password_regex pw")
  case True
  then have "length pw < 6" using assms by simp
  then have "password_issues pw = [(''password'', ''Password must be at least 6 characters'')]"
    using True by (simp add: password_issues_def)
  then show ?thesis by simp
next
  case False
  then have "(''password'',
       ''Password must contain at least one uppercase letter, one lowercase letter, and one number'')
       \<in> set (password_issues pw)"
    unfolding password_issues_def by (simp only: set_append Un_iff if_False list.set insert_iff simp_thms)
  then show ?thesis by blast
qed

lemma signUpSchema_password_issue:
  assumes "length (password fd) < 6 \<or> \<not> password_regex (password fd)"
  shows "\<exists>m. (''password'', m) \<in> set (signUpSchema ve fd)"
proof -
  obtain m where "(''password'', m) \<in> set (password_issues (password fd))"
    using password_issues_nonempty [OF assms] by blast
  then have "(''password'', m) \<in> set (signUpSchema ve fd)"
    unfolding signUpSchema_def by (simp only: set_append Un_iff simp_thms)
  then show ?thesis by blast
qed

text \<open>
  Claim C4. In sign-up mode, a password that fails the complexity pattern (an uppercase
  letter, a lowercase letter, a digit, and length at least 6) makes \<^verbatim>\<open>handleSubmit\<close>
  return with an error on the field \<open>password\<close> and without calling \<^verbatim>\<open>signUp\<close> or
  \<^verbatim>\<open>signIn\<close>: no event, whatever the other fields hold and however the calls would end.
\<close>

theorem weak_password_rejected_before_call:
  assumes "isSignUp pg"
      and "\<not> spec_password_ok (password (formData pg))"
      and "handleSubmit valid_email up inn pg = (pg', evs)"
  shows "evs = [] \<and> errors pg' ''password'' \<noteq> None \<and> \<not> isSubmitting pg' \<and>
         apiError pg' = [] \<and> \<not> verificationSent pg' \<and> formData pg' = formData pg"
proof -
  have w: "length (password (formData pg)) < 6 \<or> \<not> password_regex (password (formData pg))"
    using assms(2) by (rule weak_password_issue)
  then obtain m where m: "(''password'', m) \<in> set (signUpSchema valid_email (formData pg))"
    using signUpSchema_password_issue by blast
  then have ne: "signUpSchema valid_email (formData pg) \<noteq> []" by auto
  have r: "pg' = pg\<lparr>isSubmitting := True, apiError := [], verificationSent := False,
                    errors := fieldErrors (signUpSchema valid_email (formData pg)),
                    isSubmitting := False\<rparr>" and e: "evs = []"
    using assms(1,3) ne by (simp_all add: handleSubmit_def Let_def)
  have "errors pg' ''password'' \<noteq> None"
    using fieldErrors_mem [OF m] by (simp add: r)
  then show ?thesis using e by (simp add: r)
qed

lemma weak_signup_run:
  "handleSubmit (\<lambda>e. True) (Returns None) (Returns None) weak_signup =
     (weak_signup\<lparr>errors := [''password'' \<mapsto>
        ''Password must contain at least one uppercase letter, one lowercase letter, and one number'']\<rparr>, [])"
  by (simp add: weak_signup_def handleSubmit_def signUpSchema_def password_issues_def fullName_issues_def
        email_issues_def acceptTerms_issues_def confirmPassword_issues_def
        password_regex_def is_upper_def is_lower_def is_digit_def line_terminator_def fieldErrors_def Let_def)

text \<open>The sign-up with the password \<^verbatim>\<open>abcdef1\<close>.\<close>

theorem weak_password_rejected_before_call_witness:
  "\<not> spec_password_ok (password (formData weak_signup)) \<and>
   snd (handleSubmit (\<lambda>e. True) (Returns None) (Returns None) weak_signup) = [] \<and>
   errors (fst (handleSubmit (\<lambda>e. True) (Returns None) (Returns None) weak_signup)) ''password'' =
     Some ''Password must contain at least one uppercase letter, one lowercase letter, and one number''"
  using weak_password_rejected_before_call [of weak_signup "\<lambda>e. True" "Returns None" "Returns None"
      "fst (handleSubmit (\<lambda>e. True) (Returns None) (Returns None) weak_signup)"
      "snd (handleSubmit (\<lambda>e. True) (Returns None) (Returns None) weak_signup)"]
  by (simp add: weak_signup_run)
     (simp add: weak_signup_def spec_password_ok_def is_upper_def is_lower_def is_digit_def)

section \<open>Properties of the session state\<close>

lemma loading_writes_append: "loading_writes (xs @ ys) = loading_writes xs @ loading_writes ys"
  by (induction xs rule: loading_writes.induct) simp_all

lemma fetchUserData_frame:
  "fetchUserData cu outcome uid st = (st', evs) \<Longrightarrow>
     session st' = session st \<and> user st' = user st \<and> isLoading st' = isLoading st \<and>
     \<not> list_ex reverts_or_reports evs \<and> loading_writes evs = []"
  by (auto simp: fetchUserData_def Let_def split: option.splits fetch_outcome.splits if_splits)

lemma fetchUserData_miss:
  assumes "map_option user_id cu \<noteq> Some uid \<or> cachedUserData st = None"
  shows "fetchUserData cu outcome uid st =
     (case outcome of
        TimedOut \<Rightarrow> (st, [StartTimeout 5000, SelectProfileRow uid, SelectAdminRole uid,
                         AuthWarn ''User data fetch timed out''])
      | FetchRejected m \<Rightarrow> (st, [StartTimeout 5000, SelectProfileRow uid, SelectAdminRole uid,
                         AuthWarn ''Error fetching user data:''])
      | Fetched pdata role \<Rightarrow>
         (case pdata of
            Some p \<Rightarrow> (st\<lparr>profile := Some p, cachedUserData := Some (Some p, role), isAdmin := role\<rparr>,
                       [StartTimeout 5000, SelectProfileRow uid, SelectAdminRole uid,
                        SetProfile (Some p), SetIsAdmin role])
          | None \<Rightarrow> (st\<lparr>isAdmin := role\<rparr>,
                     [StartTimeout 5000, SelectProfileRow uid, SelectAdminRole uid, SetIsAdmin role])))"
  using assms
  by (auto simp: fetchUserData_def Let_def split: option.splits fetch_outcome.splits)

text \<open>
  Claim C7. \<^verbatim>\<open>fetchUserData\<close> never writes the session, the user or \<open>isLoading\<close> and
  reports no error, whatever the state, the user id and the way the race settles (also
  when it serves the cache). When it does fetch (the cache is empty, or the captured user
  has another id), it first starts the timer of 5000 ms and issues both requests, before
  awaiting either; if the timer wins, the state is left exactly as it was and the only
  trace is the warning on the console.
\<close>

theorem fetch_never_reverts_sign_in:
  assumes "fetchUserData cu outcome uid st = (st', evs)"
  shows "session st' = session st \<and> user st' = user st \<and> isLoading st' = isLoading st \<and>
         \<not> list_ex reverts_or_reports evs \<and>
         (map_option user_id cu \<noteq> Some uid \<or> cachedUserData st = None \<longrightarrow>
            take 3 evs = [StartTimeout 5000, SelectProfileRow uid, SelectAdminRole uid] \<and>
            (outcome = TimedOut \<longrightarrow>
               st' = st \<and> drop 3 evs = [AuthWarn ''User data fetch timed out'']))"
proof -
  note f = fetchUserData_frame [OF assms]
  have "take 3 evs = [StartTimeout 5000, SelectProfileRow uid, SelectAdminRole uid] \<and>
            (outcome = TimedOut \<longrightarrow>
               st' = st \<and> drop 3 evs = [AuthWarn ''User data fetch timed out''])"
    if m: "map_option user_id cu \<noteq> Some uid \<or> cachedUserData st = None"
    using assms unfolding fetchUserData_miss [OF m]
    by (auto split: fetch_outcome.splits option.splits)
  with f show ?thesis by blast
qed

lemma signIn_returns: "\<exists>st' err evs. signIn env em pw st = Returns (st', err, evs)"
  by (simp add: signIn_def Let_def split: prod.splits sum.splits)

lemma signIn_err:
  assumes "signin_response env = AuthErr m"
  shows "signIn env em pw st =
           Returns (st\<lparr>isLoading := False, cachedUserData := cache_on_resume env\<rparr>,
                    Some (if js_includes m ''Email not confirmed''
                          then ''Please verify your email first. Check your inbox.'' else m),
                    [SetIsLoading True, SignInWithPassword em pw, SetIsLoading False])"
  using assms by (simp add: signIn_def signIn_try_def Let_def)

lemma signIn_ok:
  assumes "signin_response env = AuthOk (Some s)"
  shows "signIn env em pw st =
           Returns ((fst (fetchUserData (user st) (user_data env) (user_id (session_user s))
                      (st\<lparr>isLoading := True, cachedUserData := cache_on_resume env, session := Some s,
                          user := Some (session_user s)\<rparr>)))\<lparr>isLoading := False\<rparr>,
                    None,
                    [SetIsLoading True, SignInWithPassword em pw, SetSession (Some s),
                     SetUser (Some (session_user s))] @
                    snd (fetchUserData (user st) (user_data env) (user_id (session_user s))
                      (st\<lparr>isLoading := True, cachedUserData := cache_on_resume env, session := Some s,
                          user := Some (session_user s)\<rparr>)) @ [SetIsLoading False])"
  using assms by (simp add: signIn_def signIn_try_def Let_def split: prod.splits)

lemma signIn_success_writes:
  assumes "signin_response env = AuthOk so"
      and "signIn env em pw st = Returns (st', err, evs)"
  shows "loading_writes evs = [True, False] \<and> err = None \<and> \<not> isLoading st'"
proof (cases so)
  case None
  then show ?thesis using assms by (auto simp: signIn_def signIn_try_def Let_def)
next
  case (Some s)
  obtain st3 ev3 where f: "fetchUserData (user st) (user_data env) (user_id (session_user s))
                      (st\<lparr>isLoading := True, cachedUserData := cache_on_resume env, session := Some s,
                          user := Some (session_user s)\<rparr>) = (st3, ev3)" by fastforce
  note fr = fetchUserData_frame [OF f]
  show ?thesis using assms(2) fr unfolding signIn_ok [OF assms(1) [unfolded Some]] f
    by (auto simp: loading_writes_append)
qed

lemma authStateChange_writes:
  "loading_writes (snd (authStateChange cu outcome ns st)) = [False]"
  by (auto simp: authStateChange_def Let_def loading_writes_append split: prod.splits option.splits
           dest: fetchUserData_frame)

lemma falls_after_true: "set ws \<subseteq> {False} \<Longrightarrow> ws \<noteq> [] \<Longrightarrow> falls b (True # ws) = 1"
proof -
  have z: "set ws \<subseteq> {False} \<Longrightarrow> falls False ws = 0" for ws
    by (induction ws) auto
  assume "set ws \<subseteq> {False}" "ws \<noteq> []"
  then show ?thesis using z [of "tl ws"] by (cases ws) auto
qed



lemma fetch_timeout_run:
  "fetchUserData None TimedOut ''worker-1''
     (signed_out\<lparr>session := Some ada_session, user := Some ada\<rparr>) =
   (signed_out\<lparr>session := Some ada_session, user := Some ada\<rparr>,
    [StartTimeout 5000, SelectProfileRow ''worker-1'', SelectAdminRole ''worker-1'',
     AuthWarn ''User data fetch timed out''])"
  by (simp add: fetchUserData_def signed_out_def)

text \<open>The fetch after a sign-in, abandoned at the timeout.\<close>

theorem fetch_never_reverts_sign_in_witness:
  "session (fst (fetchUserData None TimedOut ''worker-1''
       (signed_out\<lparr>session := Some ada_session, user := Some ada\<rparr>))) = Some ada_session \<and>
   user (fst (fetchUserData None TimedOut ''worker-1''
       (signed_out\<lparr>session := Some ada_session, user := Some ada\<rparr>))) = Some ada \<and>
   take 3 (snd (fetchUserData None TimedOut ''worker-1''
       (signed_out\<lparr>session := Some ada_session, user := Some ada\<rparr>))) =
     [StartTimeout 5000, SelectProfileRow ''worker-1'', SelectAdminRole ''worker-1'']"
  using fetch_never_reverts_sign_in [OF fetch_timeout_run]
  by (simp add: fetch_timeout_run)

text \<open>
  Claim C8 as stated fails for \<open>Invalid login\<close>: \<^verbatim>\<open>signIn\<close> returns the backend's error
  \<open>Invalid login credentials\<close> as it came.
\<close>

theorem signIn_returns_invalid_login_unmapped_counterexample:
  "js_includes ''Invalid login credentials'' ''Invalid login'' \<and>
   returned_error (signIn sign_in_refused (email (formData signin_form)) (password (formData signin_form))
     signed_out) = Returns (Some ''Invalid login credentials'')"
  by (simp add: signIn_err sign_in_refused_def returned_error_def)

text \<open>
  Claim C8, amended. \<^verbatim>\<open>signIn\<close> always returns and never throws: an exception of the
  backend call comes back as the \<^verbatim>\<open>error\<close> of the result. Of the two substrings it maps
  only \<open>Email not confirmed\<close>, to its own message; any other error, \<open>Invalid login\<close>
  included, is returned unchanged. The form then shows, for the error that \<^verbatim>\<open>signIn\<close>
  returned to \<^verbatim>\<open>handleSubmit\<close>: the message of \<^verbatim>\<open>signIn\<close> for \<open>Email not confirmed\<close>,
  \<open>Invalid email or password. Please try again.\<close> for \<open>Invalid login\<close>, and otherwise the
  backend's message (or a fixed one if that is empty). When the backend answers with a
  session, \<^verbatim>\<open>signIn\<close> returns no error, the state holds that session and its user, and
  \<^verbatim>\<open>fetchUserData\<close> has been called between the two; it issues the profile and role
  requests unless the cache, refilled while \<^verbatim>\<open>signIn\<close> awaited, is served to a user with
  the same id as the one signed in before.
\<close>

theorem signIn_result_or_error:
  shows "(\<exists>st' err evs. signIn env em pw st = Returns (st', err, evs)) \<and>
         (\<forall>m. signin_response env = AuthThrows m \<longrightarrow>
              returned_error (signIn env em pw st) = Returns (Some m)) \<and>
         (\<forall>m. signin_response env = AuthErr m \<longrightarrow>
              returned_error (signIn env em pw st) =
                Returns (Some (if js_includes m ''Email not confirmed''
                               then ''Please verify your email first. Check your inbox.'' else m))) \<and>
         (\<forall>m. signin_response env = AuthErr m \<and> \<not> isSignUp pg \<and>
              signInSchema valid_email (email (formData pg)) (password (formData pg)) = [] \<longrightarrow>
              apiError (fst (handleSubmit valid_email up
                  (returned_error (signIn env (email (formData pg)) (password (formData pg)) st)) pg)) =
                (if js_includes m ''Email not confirmed''
                 then ''Please verify your email first. Check your inbox.''
                 else if js_includes m ''Invalid login''
                 then ''Invalid email or password. Please try again.''
                 else if m = [] then ''Failed to sign in. Please try again.'' else m)) \<and>
         (\<forall>s. signin_response env = AuthOk (Some s) \<longrightarrow>
              returned_error (signIn env em pw st) = Returns None \<and>
              map_option session (result_state (signIn env em pw st)) = Some (Some s) \<and>
              map_option user (result_state (signIn env em pw st)) = Some (Some (session_user s)) \<and>
              result_events (signIn env em pw st) =
                [SetIsLoading True, SignInWithPassword em pw, SetSession (Some s),
                 SetUser (Some (session_user s))] @
                snd (fetchUserData (user st) (user_data env) (user_id (session_user s))
                      (st\<lparr>isLoading := True, cachedUserData := cache_on_resume env, session := Some s,
                          user := Some (session_user s)\<rparr>)) @
                [SetIsLoading False] \<and>
              (cache_on_resume env = None \<or>
               map_option user_id (user st) \<noteq> Some (user_id (session_user s)) \<longrightarrow>
                 SelectProfileRow (user_id (session_user s)) \<in> set (result_events (signIn env em pw st)) \<and>
                 SelectAdminRole (user_id (session_user s)) \<in> set (result_events (signIn env em pw st))))"
proof -
  have 1: "\<exists>st' err evs. signIn env em pw st = Returns (st', err, evs)"
    by (rule signIn_returns)
  have 2: "\<forall>m. signin_response env = AuthThrows m \<longrightarrow>
              returned_error (signIn env em pw st) = Returns (Some m)"
    by (simp add: signIn_def signIn_try_def returned_error_def Let_def)
  have 3: "\<forall>m. signin_response env = AuthErr m \<longrightarrow>
              returned_error (signIn env em pw st) =
                Returns (Some (if js_includes m ''Email not confirmed''
                               then ''Please verify your email first. Check your inbox.'' else m))"
    by (simp add: signIn_err returned_error_def)
  have 4: "apiError (fst (handleSubmit valid_email up
                  (returned_error (signIn env (email (formData pg)) (password (formData pg)) st)) pg)) =
                (if js_includes m ''Email not confirmed''
                 then ''Please verify your email first. Check your inbox.''
                 else if js_includes m ''Invalid login''
                 then ''Invalid email or password. Please try again.''
                 else if m = [] then ''Failed to sign in. Please try again.'' else m)"
    if e: "signin_response env = AuthErr m" and i: "\<not> isSignUp pg"
      and v: "signInSchema valid_email (email (formData pg)) (password (formData pg)) = []" for m
  proof -
    have r: "returned_error (signIn env (email (formData pg)) (password (formData pg)) st) =
               Returns (Some (if js_includes m ''Email not confirmed''
                               then ''Please verify your email first. Check your inbox.'' else m))"
      by (simp add: signIn_err [OF e] returned_error_def)
    have h: "fst (handleSubmit valid_email up (Returns err) pg) =
               (after_signIn err (pg\<lparr>isSubmitting := True, apiError := [], verificationSent := False\<rparr>))
                 \<lparr>isSubmitting := False\<rparr>" for err
      using i v by (simp add: handleSubmit_def Let_def)
    have a: "apiError (after_signIn (Some ''Please verify your email first. Check your inbox.'') q) =
               ''Please verify your email first. Check your inbox.''" for q
      by (simp add: after_signIn_def)
    have b: "\<not> js_includes m ''Email not confirmed'' \<Longrightarrow>
             apiError (after_signIn (Some m) q) =
               (if js_includes m ''Invalid login''
                then ''Invalid email or password. Please try again.''
                else if m = [] then ''Failed to sign in. Please try again.'' else m)" for q
      by (simp add: after_signIn_def)
    show ?thesis unfolding r h using a b by simp
  qed
  have 5: "returned_error (signIn env em pw st) = Returns None \<and>
              map_option session (result_state (signIn env em pw st)) = Some (Some s) \<and>
              map_option user (result_state (signIn env em pw st)) = Some (Some (session_user s)) \<and>
              result_events (signIn env em pw st) =
                [SetIsLoading True, SignInWithPassword em pw, SetSession (Some s),
                 SetUser (Some (session_user s))] @
                snd (fetchUserData (user st) (user_data env) (user_id (session_user s))
                      (st\<lparr>isLoading := True, cachedUserData := cache_on_resume env, session := Some s,
                          user := Some (session_user s)\<rparr>)) @
                [SetIsLoading False] \<and>
              (cache_on_resume env = None \<or>
               map_option user_id (user st) \<noteq> Some (user_id (session_user s)) \<longrightarrow>
                 SelectProfileRow (user_id (session_user s)) \<in> set (result_events (signIn env em pw st)) \<and>
                 SelectAdminRole (user_id (session_user s)) \<in> set (result_events (signIn env em pw st)))"
    if ok: "signin_response env = AuthOk (Some s)" for s
  proof -
    let ?st2 = "st\<lparr>isLoading := True, cachedUserData := cache_on_resume env, session := Some s,
                    user := Some (session_user s)\<rparr>"
    obtain st3 ev3 where f: "fetchUserData (user st) (user_data env) (user_id (session_user s)) ?st2 = (st3, ev3)"
      by fastforce
    note fr = fetchUserData_frame [OF f]
    have ev: "SelectProfileRow (user_id (session_user s)) \<in> set ev3 \<and>
              SelectAdminRole (user_id (session_user s)) \<in> set ev3"
      if c: "cache_on_resume env = None \<or>
               map_option user_id (user st) \<noteq> Some (user_id (session_user s))"
    proof -
      have miss: "map_option user_id (user st) \<noteq> Some (user_id (session_user s)) \<or>
                  cachedUserData ?st2 = None"
        using c by auto
      show ?thesis
        using f unfolding fetchUserData_miss [OF miss]
        by (auto split: fetch_outcome.splits option.splits)
    qed
    show ?thesis
      using fr ev unfolding signIn_ok [OF ok] f
      by (simp add: returned_error_def result_state_def result_events_def)
  qed
  from 1 2 3 4 5 show ?thesis by blast
qed

lemma sign_in_again_run:
  "signIn sign_in_again (email (formData signin_form)) (password (formData signin_form)) signed_in =
     Returns (signed_in\<lparr>profile := Some worker_profile, isAdmin := True\<rparr>, None,
       [SetIsLoading True,
        SignInWithPassword (email (formData signin_form)) (password (formData signin_form)),
        SetSession (Some ada_session), SetUser (Some ada),
        SetProfile (Some worker_profile), SetIsAdmin True, SetIsLoading False])"
  by (simp add: signIn_def signIn_try_def fetchUserData_def sign_in_again_def signed_in_def
        ada_session_def ada_def Let_def)

text \<open>
  The unconfirmed email is mapped by \<^verbatim>\<open>signIn\<close> and shown by the form; a successful
  sign-in sets the session; a repeated sign-in that finds the cache refilled issues no
  request.
\<close>

theorem signIn_result_or_error_witness:
  "returned_error (signIn sign_in_unconfirmed (email (formData signin_form))
     (password (formData signin_form)) signed_out) =
     Returns (Some ''Please verify your email first. Check your inbox.'') \<and>
   apiError (fst (handleSubmit (\<lambda>e. True) (Returns None)
     (returned_error (signIn sign_in_refused (email (formData signin_form))
        (password (formData signin_form)) signed_out)) signin_form)) =
     ''Invalid email or password. Please try again.'' \<and>
   map_option session (result_state (signIn sign_in_timeout (email (formData signin_form))
     (password (formData signin_form)) signed_out)) = Some (Some ada_session) \<and>
   result_events (signIn sign_in_again (email (formData signin_form))
     (password (formData signin_form)) signed_in) =
     [SetIsLoading True,
      SignInWithPassword (email (formData signin_form)) (password (formData signin_form)),
      SetSession (Some ada_session), SetUser (Some ada),
      SetProfile (Some worker_profile), SetIsAdmin True, SetIsLoading False]"
proof -
  have v: "signInSchema (\<lambda>e. True) (email (formData signin_form)) (password (formData signin_form)) = []"
    by (simp add: signInSchema_def email_issues_def signin_form_def)
  have n: "\<not> isSignUp signin_form" by (simp add: signin_form_def)
  have r: "signin_response sign_in_refused = AuthErr ''Invalid login credentials''"
          "signin_response sign_in_unconfirmed = AuthErr ''Email not confirmed''"
          "signin_response sign_in_timeout = AuthOk (Some ada_session)"
    by (simp_all add: sign_in_refused_def sign_in_unconfirmed_def sign_in_timeout_def)
  have c1: "returned_error (signIn sign_in_unconfirmed (email (formData signin_form))
               (password (formData signin_form)) signed_out) =
             Returns (Some ''Please verify your email first. Check your inbox.'')"
    using signIn_result_or_error [of sign_in_unconfirmed "email (formData signin_form)"
            "password (formData signin_form)" signed_out signin_form "\<lambda>e. True" "Returns None",
            THEN conjunct2, THEN conjunct2, THEN conjunct1, rule_format, OF r(2)]
    by simp
  have c2: "apiError (fst (handleSubmit (\<lambda>e. True) (Returns None)
               (returned_error (signIn sign_in_refused (email (formData signin_form))
                  (password (formData signin_form)) signed_out)) signin_form)) =
             ''Invalid email or password. Please try again.''"
    using signIn_result_or_error [of sign_in_refused "email (formData signin_form)"
            "password (formData signin_form)" signed_out signin_form "\<lambda>e. True" "Returns None",
            THEN conjunct2, THEN conjunct2, THEN conjunct2, THEN conjunct1, rule_format,
            of "''Invalid login credentials''"] r(1) n v
    by simp
  have c3: "map_option session (result_state (signIn sign_in_timeout (email (formData signin_form))
               (password (formData signin_form)) signed_out)) = Some (Some ada_session)"
    using signIn_result_or_error [of sign_in_timeout "email (formData signin_form)"
            "password (formData signin_form)" signed_out signin_form "\<lambda>e. True" "Returns None",
            THEN conjunct2, THEN conjunct2, THEN conjunct2, THEN conjunct2, rule_format, OF r(3)]
    by blast
  have c4: "result_events (signIn sign_in_again (email (formData signin_form))
               (password (formData signin_form)) signed_in) =
             [SetIsLoading True,
              SignInWithPassword (email (formData signin_form)) (password (formData signin_form)),
              SetSession (Some ada_session), SetUser (Some ada),
              SetProfile (Some worker_profile), SetIsAdmin True, SetIsLoading False]"
    by (simp add: sign_in_again_run result_events_def)
  from c1 c2 c3 c4 show ?thesis by blast
qed

text \<open>
  Claim C9. In a sign-in that the backend accepts, \<^verbatim>\<open>signIn\<close> writes \<open>isLoading\<close> twice:
  true at the start and false at the end, whether the fetch of profile and role is served,
  fails or is abandoned at the timeout. So the flag goes from true to false exactly once
  in the call, whatever it was before; and it still does so exactly once when the auth
  listener, which the sign-in wakes, commits its own \<^verbatim>\<open>setIsLoading(false)\<close> before or
  after that of \<^verbatim>\<open>signIn\<close>.
\<close>

theorem signIn_success_loading_once:
  assumes "signin_response env = AuthOk so"
      and "signIn env em pw st = Returns (st', err, evs)"
  shows "err = None \<and> loading_writes evs = [True, False] \<and>
         falls (isLoading st) (loading_writes evs) = 1 \<and> \<not> isLoading st' \<and>
         (\<forall>ws \<in> shuffles (tl (loading_writes evs))
                   (loading_writes (snd (authStateChange cu outcome ns stx))).
            falls (isLoading st) (True # ws) = 1)"
proof -
  note w = signIn_success_writes [OF assms]
  have 1: "falls (isLoading st) (loading_writes evs) = 1" using w by simp
  have 2: "\<forall>ws \<in> shuffles (tl (loading_writes evs))
                   (loading_writes (snd (authStateChange cu outcome ns stx))).
            falls (isLoading st) (True # ws) = 1"
    unfolding authStateChange_writes using w by simp
  from w 1 2 show ?thesis by blast
qed

lemma sign_in_timeout_run:
  "signIn sign_in_timeout (email (formData signin_form)) (password (formData signin_form)) signed_out =
     Returns (signed_out\<lparr>session := Some ada_session, user := Some ada\<rparr>, None,
       [SetIsLoading True,
        SignInWithPassword (email (formData signin_form)) (password (formData signin_form)),
        SetSession (Some ada_session), SetUser (Some ada),
        StartTimeout 5000, SelectProfileRow ''worker-1'', SelectAdminRole ''worker-1'',
        AuthWarn ''User data fetch timed out'', SetIsLoading False])"
  by (simp add: signIn_def signIn_try_def fetchUserData_def sign_in_timeout_def signed_out_def
        ada_session_def ada_def Let_def)

text \<open>A sign-in whose fetch of profile and role is abandoned at the timeout.\<close>

theorem signIn_success_loading_once_witness:
  "loading_writes (result_events (signIn sign_in_timeout (email (formData signin_form))
      (password (formData signin_form)) signed_out)) = [True, False] \<and>
   falls (isLoading signed_out) (loading_writes (result_events (signIn sign_in_timeout
      (email (formData signin_form)) (password (formData signin_form)) signed_out))) = 1"
proof -
  have r: "signin_response sign_in_timeout = AuthOk (Some ada_session)"
    by (simp add: sign_in_timeout_def)
  have l: "isLoading signed_out = False"
    by (simp add: signed_out_def)
  show ?thesis
    using signIn_success_loading_once [OF r sign_in_timeout_run] l
    by (simp add: sign_in_timeout_run result_events_def)
qed

end
